theory Spec2Isabelle
  imports Main
begin

section \<open>Python strings\<close>

text \<open>
  A Python \<^verbatim>\<open>str\<close> is modelled as a \<^typ>\<open>string\<close> whose characters are the code points
  below 256. The functions of this section are the \<^verbatim>\<open>str\<close> methods the repository calls,
  restricted to that range.
\<close>

datatype error = ValueError string | OSError string | IndexError

definition nl :: string where
  "nl = [CHR 0x0A]"

text \<open>\<^verbatim>\<open>str.isspace\<close> on one character: the white space of Unicode below 256.\<close>

definition isspace :: "char \<Rightarrow> bool" where
  "isspace c = (c \<in> set [CHR 0x09, CHR 0x0A, CHR 0x0B, CHR 0x0C, CHR 0x0D,
                          CHR 0x1C, CHR 0x1D, CHR 0x1E, CHR 0x1F, CHR 0x20,
                          CHR 0x85, CHR 0xA0])"

text \<open>\<^verbatim>\<open>s.strip()\<close>\<close>

definition strip :: "string \<Rightarrow> string" where
  "strip s = rev (dropWhile isspace (rev (dropWhile isspace s)))"

text \<open>\<^verbatim>\<open>s.lower()\<close>, character by character.\<close>

definition lower_char :: "char \<Rightarrow> char" where
  "lower_char c =
     (let n = (of_char c :: nat)
      in if (65 \<le> n \<and> n \<le> 90) \<or> (192 \<le> n \<and> n \<le> 222 \<and> n \<noteq> 215)
         then char_of (n + 32) else c)"

definition lower :: "string \<Rightarrow> string" where
  "lower s = map lower_char s"

text \<open>\<^verbatim>\<open>s.startswith(p)\<close>\<close>

definition startswith :: "string \<Rightarrow> string \<Rightarrow> bool" where
  "startswith s p = (take (length p) s = p)"

text \<open>\<^verbatim>\<open>p in s\<close> for two strings.\<close>

fun contains :: "string \<Rightarrow> string \<Rightarrow> bool" where
  "contains [] p = (p = [])"
| "contains (x # xs) p = (startswith (x # xs) p \<or> contains xs p)"

text \<open>\<^verbatim>\<open>s.split(c)\<close> for a separator of one character: never an empty list.\<close>

fun split_on :: "char \<Rightarrow> string \<Rightarrow> string list" where
  "split_on c [] = [[]]"
| "split_on c (x # xs) =
     (if x = c then [] # split_on c xs
      else (case split_on c xs of
              [] \<Rightarrow> [[x]]
            | w # ws \<Rightarrow> (x # w) # ws))"

text \<open>\<^verbatim>\<open>s.replace(old, '')\<close>: the occurrences of \<open>old\<close> are removed from left to right.\<close>

function remove_all :: "string \<Rightarrow> string \<Rightarrow> string" where
  "remove_all old [] = []"
| "remove_all old (x # xs) =
     (if old \<noteq> [] \<and> startswith (x # xs) old
      then remove_all old (drop (length old) (x # xs))
      else x # remove_all old xs)"
  by pat_completeness auto
termination
  by (relation "measure (\<lambda>(old, s). length s)") (auto simp: neq_Nil_conv)

text \<open>\<^verbatim>\<open>sep.join(xs)\<close>\<close>

fun join :: "string \<Rightarrow> string list \<Rightarrow> string" where
  "join sep [] = []"
| "join sep [x] = x"
| "join sep (x # y # ys) = x @ sep @ join sep (y # ys)"

text \<open>\<^verbatim>\<open>str(n)\<close> for an integer: decimal digits, with a sign when negative.\<close>

definition digit :: "nat \<Rightarrow> char" where
  "digit d = char_of (48 + d)"

fun str_nat :: "nat \<Rightarrow> string" where
  "str_nat n = (if n < 10 then [digit n] else str_nat (n div 10) @ [digit (n mod 10)])"

declare str_nat.simps [simp del]

definition str_int :: "int \<Rightarrow> string" where
  "str_int i = (if i < 0 then CHR ''-'' # str_nat (nat (- i)) else str_nat (nat i))"

section \<open>Parsing the agents' replies (\<^verbatim>\<open>rsallms/solvers/gvc_2.py\<close>)\<close>

text \<open>\<^verbatim>\<open>next((line for line in lines if line.startswith(p)), '')\<close>\<close>

definition first_line :: "string \<Rightarrow> string list \<Rightarrow> string" where
  "first_line p lines = (case find (\<lambda>line. startswith line p) lines of None \<Rightarrow> [] | Some line \<Rightarrow> line)"

text \<open>\<^verbatim>\<open>[word.strip() for word in group_line.replace('Group:', '').split(',')]\<close>\<close>

definition group_words :: "string \<Rightarrow> string list" where
  "group_words group_line = map strip (split_on CHR '','' (remove_all ''Group:'' group_line))"

definition parse_guesser_reply :: "string \<Rightarrow> error + (string list \<times> string)" where
  "parse_guesser_reply reply =
     (let lines = split_on CHR 0x0A (strip reply);
          group_line = first_line ''Group:'' lines;
          category_line = first_line ''Category:'' lines
      in if group_line = [] \<and> category_line = []
         then Inl (ValueError ''GuesserAgent's reply is missing both 'Group' and 'Category'.'')
         else if group_line = []
         then Inl (ValueError ''GuesserAgent's reply is missing 'Group'.'')
         else if category_line = []
         then Inl (ValueError ''GuesserAgent's reply is missing 'Category'.'')
         else
           (let group = group_words group_line;
                category = strip (remove_all ''Category:'' category_line)
            in if length group \<noteq> 4
               then Inl (ValueError (''GuesserAgent's group contains '' @ str_nat (length group)
                                      @ '' words; expected exactly 4.''))
               else Inr (group, category)))"

definition parse_validator_reply :: "string \<Rightarrow> error + string list" where
  "parse_validator_reply reply =
     (let lines = split_on CHR 0x0A (strip reply);
          group_line = first_line ''Group:'' lines
      in if group_line = []
         then Inl (ValueError ''ValidatorAgent's reply is missing 'Group'.'')
         else
           (let group = group_words group_line
            in if length group \<noteq> 4
               then Inl (ValueError ''ValidatorAgent's group does not contain exactly 4 words.'')
               else Inr group))"

definition parse_consensus_reply :: "string \<Rightarrow> bool" where
  "parse_consensus_reply reply =
     (let normalized = lower (strip reply)
      in if contains normalized ''consensus reached'' then True
         else if contains normalized ''consensus not reached'' then False
         else False)"

text \<open>The lines of a reply as both parsers see them, and whether one starts with a marker.\<close>

definition reply_lines :: "string \<Rightarrow> string list" where
  "reply_lines reply = split_on CHR 0x0A (strip reply)"

definition has_line :: "string \<Rightarrow> string \<Rightarrow> bool" where
  "has_line p reply = (\<exists>line \<in> set (reply_lines reply). startswith line p)"

text \<open>Whether a line of the reply as it came, not stripped, starts with a marker.\<close>

definition raw_has_line :: "string \<Rightarrow> string \<Rightarrow> bool" where
  "raw_has_line p reply = (\<exists>line \<in> set (split_on CHR 0x0A reply). startswith line p)"

text \<open>A string with no white space at either end.\<close>

definition stripped :: "string \<Rightarrow> bool" where
  "stripped s = (s = [] \<or> (\<not> isspace (hd s) \<and> \<not> isspace (last s)))"

section \<open>The metrics accumulator (\<^verbatim>\<open>rsallms/metrics.py\<close>)\<close>

record metrics =
  total_levels :: int
  points_per_correct :: int
  penalty_per_failed_guess :: int
  solves :: "bool list"
  failed_guesses :: int
  solve_order :: "int list"
  points :: int
  tokens_used :: "string \<rightharpoonup> int"

text \<open>\<^verbatim>\<open>Metrics()\<close>: every field at its default.\<close>

definition fresh_metrics :: metrics where
  "fresh_metrics = \<lparr>total_levels = 4, points_per_correct = 5, penalty_per_failed_guess = 1,
     solves = replicate 4 False, failed_guesses = 0, solve_order = [], points = 0,
     tokens_used = Map.empty\<rparr>"

text \<open>
  The position a Python list index denotes: a negative index counts from the end, and an
  index outside the list raises IndexError.
\<close>

definition py_index :: "'a list \<Rightarrow> int \<Rightarrow> error + nat" where
  "py_index xs i =
     (let n = int (length xs); j = (if i < 0 then n + i else i)
      in if 0 \<le> j \<and> j < n then Inr (nat j) else Inl IndexError)"

text \<open>
  \<^verbatim>\<open>Metrics.add_solve\<close>. The read \<^verbatim>\<open>self.solves[level]\<close> is the only statement that can raise,
  and it comes before every assignment: a call that raises leaves the object as it was.
\<close>

definition add_solve :: "metrics \<Rightarrow> int \<Rightarrow> error + metrics" where
  "add_solve m level =
     (case py_index (solves m) level of
        Inl e \<Rightarrow> Inl e
      | Inr j \<Rightarrow>
          if \<not> solves m ! j
          then Inr (m\<lparr>solves := (solves m)[j := True],
                      solve_order := solve_order m @ [level],
                      points := points m + points_per_correct m\<rparr>)
          else Inr m)"

text \<open>\<open>level\<close> is marked solved in \<open>m\<close>: \<^verbatim>\<open>self.solves[level]\<close> evaluates to True.\<close>

definition marked_solved :: "metrics \<Rightarrow> int \<Rightarrow> bool" where
  "marked_solved m level = (case py_index (solves m) level of Inl e \<Rightarrow> False | Inr j \<Rightarrow> solves m ! j)"

text \<open>The states a fresh \<^verbatim>\<open>Metrics()\<close> reaches by calls of \<^verbatim>\<open>add_solve\<close> that return.\<close>

inductive reachable :: "metrics \<Rightarrow> bool" where
  fresh: "reachable fresh_metrics"
| solve: "reachable m \<Longrightarrow> add_solve m level = Inr m' \<Longrightarrow> reachable m'"

definition metrics_inv :: "metrics \<Rightarrow> bool" where
  "metrics_inv m =
     (distinct (solve_order m) \<and> list_all (marked_solved m) (solve_order m) \<and>
      points m = points_per_correct m * int (length (solve_order m)))"

section \<open>Resolving an endpoint (\<^verbatim>\<open>rsallms/endpoints.py\<close>)\<close>

record endpoint =
  base_url :: string
  model :: string
  api_key :: "string option"

text \<open>An entry of \<^verbatim>\<open>Endpoint.DEFAULTS\<close>: its \<^verbatim>\<open>"base_url"\<close> and its \<^verbatim>\<open>"api_key"\<close>.\<close>

record default_info =
  info_base_url :: string
  info_api_key :: string

definition DEFAULTS :: "(string \<times> default_info) list" where
  "DEFAULTS =
     [(''oai'', \<lparr>info_base_url = ''https://api.openai.com/'', info_api_key = ''OPENAI_API_KEY''\<rparr>),
      (''groq'', \<lparr>info_base_url = ''https://api.groq.com/openai/'', info_api_key = ''GROQ_API_KEY''\<rparr>)]"

text \<open>\<^verbatim>\<open>Endpoint.__post_init__\<close>, with the process environment \<^verbatim>\<open>os.environ\<close> as a map.\<close>

definition post_init :: "(string \<rightharpoonup> string) \<Rightarrow> endpoint \<Rightarrow> error + endpoint" where
  "post_init env self =
     (case map_of DEFAULTS (base_url self) of
        None \<Rightarrow> Inr self
      | Some info \<Rightarrow>
          (let self1 = self\<lparr>base_url := info_base_url info\<rparr>;
               api_key_env_var = info_api_key info
           in case env api_key_env_var of
                None \<Rightarrow> Inl (OSError (''API Key '' @ api_key_env_var @ '' not found!''))
              | Some v \<Rightarrow> Inr (self1\<lparr>api_key := Some v\<rparr>)))"

text \<open>
  Constructing an \<^verbatim>\<open>Endpoint\<close>: the dataclass initialiser stores the three fields and calls
  \<^verbatim>\<open>__post_init__\<close>.
\<close>

definition Endpoint :: "(string \<rightharpoonup> string) \<Rightarrow> string \<Rightarrow> string \<Rightarrow> string option \<Rightarrow> error + endpoint" where
  "Endpoint env url mdl key = post_init env \<lparr>base_url = url, model = mdl, api_key = key\<rparr>"

section \<open>The consensus guessing protocol (\<^verbatim>\<open>GVCSolver\<close> in \<^verbatim>\<open>rsallms/solvers/gvc_2.py\<close>)\<close>

datatype agent = GuesserAgent | ValidatorAgent | ConsensusAgent

definition agent_name :: "agent \<Rightarrow> string" where
  "agent_name a =
     (case a of GuesserAgent \<Rightarrow> ''GuesserAgent''
      | ValidatorAgent \<Rightarrow> ''ValidatorAgent''
      | ConsensusAgent \<Rightarrow> ''ConsensusAgent'')"

text \<open>
  What \<^verbatim>\<open>agent.generate_reply\<close> hands back: a \<^verbatim>\<open>str\<close>; a \<^verbatim>\<open>dict\<close>, of which only
  \<^verbatim>\<open>reply.get('reply')\<close> is read (\<open>Some s\<close> when that is the \<^verbatim>\<open>str\<close> \<open>s\<close>, \<open>None\<close> when it
  is anything else); or another object.
\<close>

datatype raw_reply = ReplyStr string | ReplyDict "string option" | ReplyOther

text \<open>One query of an agent: the agent, the user prompt, and what came back.\<close>

type_synonym interaction = "agent \<times> string \<times> raw_reply"

text \<open>
  The world outside the solver. The agents are language models, so a reply may depend on
  everything asked so far: \<open>generate_reply\<close> takes the interactions so far, the agent and the
  prompt. \<open>repr_of_set\<close> is the text Python prints for \<^verbatim>\<open>list(s)\<close> of a set \<open>s\<close> of words (given
  by its elements): the order is the interpreter's.
\<close>

record environment =
  generate_reply :: "interaction list \<Rightarrow> agent \<Rightarrow> string \<Rightarrow> raw_reply"
  repr_of_set :: "string list \<Rightarrow> string"

text \<open>
  The solver: \<^verbatim>\<open>self.guesses\<close>, a dict from a category to the word groups recorded for it, as
  an association list in insertion order; and the interactions with the three agents so far.
\<close>

record solver =
  guesses :: "(string \<times> string list list) list"
  queries :: "interaction list"

definition new_solver :: solver where
  "new_solver = \<lparr>guesses = [], queries = []\<rparr>"

text \<open>\<^verbatim>\<open>GVCSolver.reset\<close>\<close>

definition reset :: "solver \<Rightarrow> solver" where
  "reset self = self\<lparr>guesses := []\<rparr>"

text \<open>\<^verbatim>\<open>GVCSolver._extract_reply_str\<close>\<close>

definition extract_reply_str :: "raw_reply \<Rightarrow> string option" where
  "extract_reply_str reply =
     (case reply of
        ReplyStr s \<Rightarrow> Some s
      | ReplyDict extracted_reply \<Rightarrow>
          (case extracted_reply of Some s \<Rightarrow> Some s | None \<Rightarrow> None)
      | ReplyOther \<Rightarrow> None)"

text \<open>\<^verbatim>\<open>GVCSolver._get_agent_reply\<close>: a reply that is missing or empty raises.\<close>

definition get_agent_reply :: "environment \<Rightarrow> solver \<Rightarrow> agent \<Rightarrow> string \<Rightarrow> solver \<times> (error + string)" where
  "get_agent_reply env self agent prompt =
     (let reply = generate_reply env (queries self) agent prompt;
          self1 = self\<lparr>queries := queries self @ [(agent, prompt, reply)]\<rparr>
      in case extract_reply_str reply of
           None \<Rightarrow> (self1, Inl (ValueError (agent_name agent @ '' failed to generate a valid reply.'')))
         | Some reply_str \<Rightarrow>
             if reply_str = []
             then (self1, Inl (ValueError (agent_name agent @ '' failed to generate a valid reply.'')))
             else (self1, Inr reply_str))"

text \<open>
  \<^verbatim>\<open>if guesser_category not in self.guesses: self.guesses[guesser_category] = []\<close> and
  \<^verbatim>\<open>self.guesses[guesser_category].append(tuple(guesser_group))\<close>
\<close>

definition record_guess :: "string \<Rightarrow> string list \<Rightarrow> (string \<times> string list list) list \<Rightarrow> (string \<times> string list list) list" where
  "record_guess category grp gs =
     (let gs1 = (if category \<notin> fst ` set gs then gs @ [(category, [])] else gs)
      in map (\<lambda>(c, word_groups). if c = category then (c, word_groups @ [grp]) else (c, word_groups)) gs1)"

text \<open>One line of the feedback: \<^verbatim>\<open>f"  * {category}: {word_groups_str}\n"\<close>\<close>

definition group_str :: "string list \<Rightarrow> string" where
  "group_str grp = ''('' @ join '', '' grp @ '')''"

definition feedback_line :: "string \<Rightarrow> string list list \<Rightarrow> string" where
  "feedback_line category word_groups =
     ''  * '' @ category @ '': '' @ join ''; '' (map group_str word_groups) @ nl"

text \<open>
  The feedback of one attempt (lines 92 to 106). \<^verbatim>\<open>successful\<close> is the list of a set
  difference: it is empty exactly when no word of the board is missing from the remaining
  words.
\<close>

definition feedback_text :: "environment \<Rightarrow> (string \<times> string list list) list \<Rightarrow> string list \<Rightarrow> string list \<Rightarrow> string" where
  "feedback_text env gs remaining_words entire_game_board =
     (let successful = remdups (filter (\<lambda>w. w \<notin> set remaining_words) entire_game_board)
      in if gs \<noteq> []
         then ''Note:'' @ nl @
              ''- Be aware that the following category and word group pairs either do not match or the category isn't specific enough. Do not repeat them!:'' @ nl @
              concat (map (\<lambda>(category, word_groups). feedback_line category word_groups) gs) @
              (if successful \<noteq> []
               then ''- Ensure that your guessed category does not encompass any of these words: '' @
                    repr_of_set env successful @ nl
               else [])
         else [])"

text \<open>The three prompts (lines 109 to 129, 142 to 165 and 178 to 183).\<close>

definition guesser_prompt_text :: "string \<Rightarrow> string \<Rightarrow> int \<Rightarrow> string" where
  "guesser_prompt_text feedback remaining_str group_size =
     feedback @ nl @
     ''Words: '' @ remaining_str @ nl @ nl @
     ''**Objective:**'' @ nl @
     ''Find a group of '' @ str_int group_size @ '' related words from the list above and provide a specific category that unambiguously describes the relationship between these words. The category should be as precise as possible to avoid any confusion with other words or potential categories.'' @ nl @ nl @
     ''**Guidelines:**'' @ nl @
     ''- Categories must be more specific than broad classifications like 'Names', 'Verbs', or '5-Letter Words'.'' @ nl @
     ''- Each word in the group should clearly fit the category without overlapping into multiple categories. Be aware of common phrases, word play, and words with multiple meanings.'' @ nl @
     ''- Avoid categories that are too vague or general and might encompass other words. Categories should be as specific as possible.'' @ nl @ nl @
     ''**Examples:**'' @ nl @
     ''1. **Group:** Bass, Flounder, Salmon, Trout'' @ nl @
     ''   **Category:** Fish'' @ nl @ nl @
     ''2. **Group:** Ant, Drill, Island, Opal'' @ nl @
     ''   **Category:** Fire ___'' @ nl @ nl @
     ''**Format Your Response As Follows:**'' @ nl @
     ''```'' @ nl @
     ''Group: word1, word2, word3, word4'' @ nl @
     ''Category: category_name'' @ nl @
     ''```'' @ nl @
     ''Ensure there is no additional text or explanation beyond the specified format.''"

definition validator_prompt_text :: "string \<Rightarrow> string \<Rightarrow> string \<Rightarrow> string" where
  "validator_prompt_text feedback remaining_str guesser_category =
     feedback @ nl @
     ''**Words:** '' @ remaining_str @ nl @
     ''**Category:** '' @ guesser_category @ nl @ nl @
     ''**Objective:**'' @ nl @
     ''Identify the four words from the list above that belong to the specified category. Ensure that each selected word clearly fits the category without ambiguity.'' @ nl @ nl @
     ''**Guidelines:**'' @ nl @
     ''- The category is already provided and is specific. Focus solely on selecting the words that best match this category. Be aware of word play and words with multiple meanings.'' @ nl @
     ''- Each word should unambiguously fit the category. Avoid selecting words that could belong to multiple categories unless they are a perfect fit.'' @ nl @
     ''- Ensure that exactly four words are selected. Do not include more or fewer words.'' @ nl @
     ''- Avoid using additional explanations or commentary. Only provide the required output in the specified format.'' @ nl @ nl @
     ''**Examples:**'' @ nl @
     ''1. **Category:** Fish'' @ nl @
     ''   **Words:** Bass, Flounder, Salmon, Trout, Ant, Drill, Island, Opal'' @ nl @
     ''   **Group:** Bass, Flounder, Salmon, Trout'' @ nl @ nl @
     ''2. **Category:** Fire ___'' @ nl @
     ''   **Words:** Ant, Drill, Island, Opal, Fire, Water, Earth, Air'' @ nl @
     ''   **Group:** Ant, Drill, Island, Opal'' @ nl @ nl @
     ''**Format Your Response As Follows:**'' @ nl @
     ''```'' @ nl @
     ''Group: word1, word2, word3, word4'' @ nl @
     ''```'' @ nl @
     ''Ensure there is no additional text or explanation beyond the specified format.''"

definition consensus_prompt_text :: "string list \<Rightarrow> string list \<Rightarrow> string" where
  "consensus_prompt_text guesser_group validator_group =
     ''Guesser Group: '' @ join '', '' guesser_group @ nl @
     ''Validator Group: '' @ join '', '' validator_group @ nl @
     ''Determine if both groups contain exactly the same words, regardless of order.'' @ nl @
     ''Respond with 'Consensus reached' if they are identical, or 'Consensus not reached' otherwise.''"

definition max_retries :: nat where
  "max_retries = 15"

definition max_retries_error :: error where
  "max_retries_error = ValueError ''Consensus not reached after maximum retries. Unable to make a guess.''"

text \<open>
  Steps 1 to 3 of one attempt (lines 90 to 188): the three queries and their parsing. The
  result is the error raised, or the guesser's group and category, the validator's group and
  the parsed verdict of the consensus agent.
\<close>

definition negotiate :: "environment \<Rightarrow> string list \<Rightarrow> string list \<Rightarrow> int \<Rightarrow> solver
    \<Rightarrow> solver \<times> (error + (string list \<times> string \<times> string list \<times> bool))" where
  "negotiate env remaining_words entire_game_board group_size self =
     (let remaining_str = join '', '' remaining_words;
          feedback = feedback_text env (guesses self) remaining_words entire_game_board;
          guesser_prompt = guesser_prompt_text feedback remaining_str group_size
      in case get_agent_reply env self GuesserAgent guesser_prompt of
           (self1, Inl e) \<Rightarrow> (self1, Inl e)
         | (self1, Inr guesser_reply) \<Rightarrow>
        (case parse_guesser_reply guesser_reply of
           Inl e \<Rightarrow> (self1, Inl e)
         | Inr (guesser_group, guesser_category) \<Rightarrow>
        (let validator_prompt = validator_prompt_text feedback remaining_str guesser_category
         in case get_agent_reply env self1 ValidatorAgent validator_prompt of
           (self2, Inl e) \<Rightarrow> (self2, Inl e)
         | (self2, Inr validator_reply) \<Rightarrow>
        (case parse_validator_reply validator_reply of
           Inl e \<Rightarrow> (self2, Inl e)
         | Inr validator_group \<Rightarrow>
        (let consensus_prompt = consensus_prompt_text guesser_group validator_group
         in case get_agent_reply env self2 ConsensusAgent consensus_prompt of
           (self3, Inl e) \<Rightarrow> (self3, Inl e)
         | (self3, Inr consensus_reply) \<Rightarrow>
             (self3, Inr (guesser_group, guesser_category, validator_group,
                          parse_consensus_reply consensus_reply)))))))"

text \<open>How one pass through the body of the retry loop ends.\<close>

datatype step = Raise error | Return "string list \<times> string" | Continue

text \<open>One attempt: the negotiation, then lines 190 to 206.\<close>

definition attempt_body :: "environment \<Rightarrow> string list \<Rightarrow> string list \<Rightarrow> int \<Rightarrow> nat \<Rightarrow> solver \<Rightarrow> solver \<times> step" where
  "attempt_body env remaining_words entire_game_board group_size attempt self =
     (case negotiate env remaining_words entire_game_board group_size self of
        (self1, Inl e) \<Rightarrow> (self1, Raise e)
      | (self1, Inr (guesser_group, guesser_category, validator_group, consensus_result)) \<Rightarrow>
          if consensus_result
          then (self1\<lparr>guesses := record_guess guesser_category guesser_group (guesses self1)\<rparr>,
                Return (guesser_group, guesser_category))
          else
            (let self2 = self1\<lparr>guesses := record_guess guesser_category guesser_group (guesses self1)\<rparr>
             in if attempt = max_retries then (self2, Raise max_retries_error)
                else (self2, Continue)))"

text \<open>
  The loop \<^verbatim>\<open>for attempt in range(1, max_retries + 1)\<close> over the attempts still to run, and
  the \<^verbatim>\<open>raise\<close> after it.
\<close>

fun guess_loop :: "environment \<Rightarrow> string list \<Rightarrow> string list \<Rightarrow> int \<Rightarrow> nat list \<Rightarrow> solver
    \<Rightarrow> solver \<times> (error + (string list \<times> string))" where
  "guess_loop env remaining_words entire_game_board group_size [] self = (self, Inl max_retries_error)"
| "guess_loop env remaining_words entire_game_board group_size (attempt # rest) self =
     (case attempt_body env remaining_words entire_game_board group_size attempt self of
        (self1, Raise e) \<Rightarrow> (self1, Inl e)
      | (self1, Return r) \<Rightarrow> (self1, Inr r)
      | (self1, Continue) \<Rightarrow> guess_loop env remaining_words entire_game_board group_size rest self1)"

text \<open>
  \<^verbatim>\<open>GVCSolver.guess\<close>. The \<^verbatim>\<open>metrics\<close> argument is not used by the body, and printing and
  logging are left out.
\<close>

definition guess :: "environment \<Rightarrow> string list \<Rightarrow> string list \<Rightarrow> int \<Rightarrow> solver
    \<Rightarrow> solver \<times> (error + (string list \<times> string))" where
  "guess env remaining_words entire_game_board group_size self =
     guess_loop env remaining_words entire_game_board group_size [1..<max_retries + 1] self"

section \<open>Reading the record of interactions\<close>

text \<open>The text \<^verbatim>\<open>_get_agent_reply\<close> returns for a reply, if it does not raise.\<close>

definition reply_text :: "raw_reply \<Rightarrow> string option" where
  "reply_text r =
     (case extract_reply_str r of None \<Rightarrow> None | Some s \<Rightarrow> if s = [] then None else Some s)"

text \<open>
  The verdict an interaction carries: that of \<^verbatim>\<open>parse_consensus_reply\<close> when it is a query of
  the consensus agent answered with a text, none otherwise.
\<close>

definition consensus_verdict :: "interaction \<Rightarrow> bool option" where
  "consensus_verdict i =
     (case i of (a, p, r) \<Rightarrow>
        if a = ConsensusAgent then map_option parse_consensus_reply (reply_text r) else None)"

text \<open>The interactions a run added: those of \<open>after\<close> beyond those of \<open>before\<close>.\<close>

definition new_queries :: "solver \<Rightarrow> solver \<Rightarrow> interaction list" where
  "new_queries before after = drop (length (queries before)) (queries after)"

definition asked :: "agent \<Rightarrow> interaction list \<Rightarrow> nat" where
  "asked a log = length (filter (\<lambda>i. fst i = a) log)"

text \<open>The pair of category \<open>c\<close> and word group \<open>g\<close> is in the feedback store.\<close>

definition listed :: "string \<Rightarrow> string list \<Rightarrow> (string \<times> string list list) list \<Rightarrow> bool" where
  "listed c g gs = (\<exists>word_groups. (c, word_groups) \<in> set gs \<and> g \<in> set word_groups)"

text \<open>The number of consensus checks in a record that parsed as not reached.\<close>

definition rejections :: "interaction list \<Rightarrow> nat" where
  "rejections log = length (filter (\<lambda>i. consensus_verdict i = Some False) log)"

text \<open>
  \<open>log\<close> is the record of one attempt that went through all three steps: the guesser proposed
  the group \<open>g\<close> with the category \<open>c\<close>, the validator answered with the group \<open>v\<close>, and the
  consensus agent, asked about \<open>g\<close> against \<open>v\<close>, gave a reply that parsed as \<open>b\<close>.
\<close>

definition consensus_round :: "interaction list \<Rightarrow> string list \<Rightarrow> string \<Rightarrow> string list \<Rightarrow> bool \<Rightarrow> bool" where
  "consensus_round log g c v b =
     (\<exists>p1 r1 s1 p2 r2 s2 r3 s3.
        log = [(GuesserAgent, p1, r1), (ValidatorAgent, p2, r2),
               (ConsensusAgent, consensus_prompt_text g v, r3)] \<and>
        reply_text r1 = Some s1 \<and> parse_guesser_reply s1 = Inr (g, c) \<and>
        reply_text r2 = Some s2 \<and> parse_validator_reply s2 = Inr v \<and>
        reply_text r3 = Some s3 \<and> parse_consensus_reply s3 = b)"

text \<open>
  The solver as the next attempt of a call finds it, after the attempts \<open>ks\<close> have each been
  run from \<open>self\<close> on.
\<close>

fun attempts_through :: "environment \<Rightarrow> string list \<Rightarrow> string list \<Rightarrow> int \<Rightarrow> solver \<Rightarrow> nat list \<Rightarrow> solver" where
  "attempts_through env remaining_words entire_game_board group_size self [] = self"
| "attempts_through env remaining_words entire_game_board group_size self (k # ks) =
     attempts_through env remaining_words entire_game_board group_size
       (fst (attempt_body env remaining_words entire_game_board group_size k self)) ks"

text \<open>
  \<open>later self1 self2\<close>: the solver \<open>self2\<close> is \<open>self1\<close> after any number of further attempts and
  calls of \<^verbatim>\<open>guess\<close>, on any words and in any world, with no \<^verbatim>\<open>reset\<close> in between.
\<close>

inductive later :: "solver \<Rightarrow> solver \<Rightarrow> bool" where
  same: "later self1 self1"
| attempt: "later self1 self2 \<Longrightarrow>
     attempt_body env remaining_words entire_game_board group_size k self2 = (self3, s) \<Longrightarrow>
     later self1 self3"
| call: "later self1 self2 \<Longrightarrow>
     guess env remaining_words entire_game_board group_size self2 = (self3, res) \<Longrightarrow>
     later self1 self3"

text \<open>
  A feedback text lists the category \<open>c\<close> with the word group \<open>g\<close>: it contains the line of
  \<open>c\<close> for some word groups that include \<open>g\<close>.
\<close>

definition mentions :: "string \<Rightarrow> string \<Rightarrow> string list \<Rightarrow> bool" where
  "mentions text c g = (\<exists>word_groups. g \<in> set word_groups \<and> contains text (feedback_line c word_groups))"

text \<open>The two lines every feedback that is not empty starts with.\<close>

definition feedback_header :: string where
  "feedback_header =
     ''Note:'' @ nl @
     ''- Be aware that the following category and word group pairs either do not match or the category isn't specific enough. Do not repeat them!:'' @ nl"

section \<open>Example runs\<close>

text \<open>
  Five worlds for concrete runs. In the first the validator names the guesser's words in
  another order and the consensus agent answers that consensus is reached; in the second the
  validator names another group and the consensus agent always answers that it is not; in
  the third the guesser's reply has no category line; in the fourth the validator names
  only two words; in the fifth the consensus agent hands back no text.
\<close>

definition demo_words :: "string list" where
  "demo_words = [''Bass'', ''Trout'', ''Salmon'', ''Cod'', ''Ant'', ''Drill'', ''Island'', ''Opal'']"

definition demo_repr :: "string list \<Rightarrow> string" where
  "demo_repr ws = ''['' @ join '', '' (map (\<lambda>w. [CHR 0x27] @ w @ [CHR 0x27]) ws) @ '']''"

definition fish_reply :: string where
  "fish_reply = ''Group: Bass, Trout, Salmon, Cod'' @ nl @ ''Category: Fish''"

definition agreeing :: environment where
  "agreeing = \<lparr>generate_reply = (\<lambda>history a prompt. case a of
       GuesserAgent \<Rightarrow> ReplyStr fish_reply
     | ValidatorAgent \<Rightarrow> ReplyStr ''Group: Cod, Bass, Trout, Salmon''
     | ConsensusAgent \<Rightarrow> ReplyDict (Some ''Consensus reached'')),
     repr_of_set = demo_repr\<rparr>"

definition disagreeing :: environment where
  "disagreeing = \<lparr>generate_reply = (\<lambda>history a prompt. case a of
       GuesserAgent \<Rightarrow> ReplyStr fish_reply
     | ValidatorAgent \<Rightarrow> ReplyStr ''Group: Cod, Bass, Trout, Ant''
     | ConsensusAgent \<Rightarrow> ReplyStr ''Consensus not reached''),
     repr_of_set = demo_repr\<rparr>"

definition malformed :: environment where
  "malformed = \<lparr>generate_reply = (\<lambda>history a prompt. case a of
       GuesserAgent \<Rightarrow> ReplyStr ''Group: Bass, Trout, Salmon, Cod''
     | ValidatorAgent \<Rightarrow> ReplyStr ''Group: Cod, Bass, Trout, Salmon''
     | ConsensusAgent \<Rightarrow> ReplyStr ''Consensus reached''),
     repr_of_set = demo_repr\<rparr>"

definition half_checked :: environment where
  "half_checked = \<lparr>generate_reply = (\<lambda>history a prompt. case a of
       GuesserAgent \<Rightarrow> ReplyStr fish_reply
     | ValidatorAgent \<Rightarrow> ReplyStr ''Group: Cod, Bass''
     | ConsensusAgent \<Rightarrow> ReplyStr ''Consensus reached''),
     repr_of_set = demo_repr\<rparr>"

definition speechless :: environment where
  "speechless = \<lparr>generate_reply = (\<lambda>history a prompt. case a of
       GuesserAgent \<Rightarrow> ReplyStr fish_reply
     | ValidatorAgent \<Rightarrow> ReplyStr ''Group: Cod, Bass, Trout, Salmon''
     | ConsensusAgent \<Rightarrow> ReplyOther),
     repr_of_set = demo_repr\<rparr>"

definition fish :: "string list" where
  "fish = [''Bass'', ''Trout'', ''Salmon'', ''Cod'']"

text \<open>A solver that has already recorded one pair.\<close>

definition seasoned :: solver where
  "seasoned = \<lparr>guesses = [(''Fire ___'', [[''Ant'', ''Drill'', ''Island'', ''Opal'']])], queries = []\<rparr>"

section \<open>Properties of the parsers\<close>

lemma first_line_empty_iff:
  "p \<noteq> [] \<Longrightarrow> first_line p lines = [] \<longleftrightarrow> \<not> (\<exists>line \<in> set lines. startswith line p)"
  by (auto simp: first_line_def startswith_def find_None_iff split: option.splits
           dest!: find_Some_iff [THEN iffD1])

lemma last_dropWhile_keep: "dropWhile P xs \<noteq> [] \<Longrightarrow> last (dropWhile P xs) = last xs"
  by (induction xs) (auto split: if_splits)

lemma stripped_strip: "stripped (strip s)"
proof -
  let ?ys = "dropWhile isspace s"
  let ?zs = "dropWhile isspace (rev ?ys)"
  show ?thesis
  proof (cases "?zs = []")
    case True
    then show ?thesis by (simp add: stripped_def strip_def)
  next
    case False
    have ne: "?ys \<noteq> []"
      using False by (metis dropWhile.simps(1) rev.simps(1))
    have "last (rev ?zs) = hd ?zs" using False by (simp add: last_rev)
    moreover have "\<not> isspace (hd ?zs)" using False hd_dropWhile by blast
    moreover have "hd (rev ?zs) = last ?zs" using False by (simp add: hd_rev)
    moreover have "last ?zs = last (rev ?ys)" using False by (rule last_dropWhile_keep)
    moreover have "last (rev ?ys) = hd ?ys" using ne by (simp add: last_rev)
    moreover have "\<not> isspace (hd ?ys)" using ne hd_dropWhile by blast
    ultimately show ?thesis by (simp add: stripped_def strip_def)
  qed
qed

lemma has_line_first_line:
  "p \<noteq> [] \<Longrightarrow> has_line p reply \<longleftrightarrow> first_line p (reply_lines reply) \<noteq> []"
  by (simp add: has_line_def first_line_empty_iff)

text \<open>
  C7, as stated, fails on a reply that starts with white space: no line of the reply itself
  starts with \<^verbatim>\<open>Group:\<close>, yet both parsers return, because they split the stripped reply.
\<close>

theorem indented_group_line_parses:
  "\<not> raw_has_line ''Group:'' (''  Group: Bass, Trout ,Salmon,Cod'' @ nl @ ''Category:  Fish '' @ nl)
   \<and> split_on CHR 0x0A (''  Group: Bass, Trout ,Salmon,Cod'' @ nl @ ''Category:  Fish '' @ nl)
       = [''  Group: Bass, Trout ,Salmon,Cod'', ''Category:  Fish '', []]
   \<and> parse_guesser_reply (''  Group: Bass, Trout ,Salmon,Cod'' @ nl @ ''Category:  Fish '' @ nl)
       = Inr ([''Bass'', ''Trout'', ''Salmon'', ''Cod''], ''Fish'')
   \<and> parse_validator_reply (''  Group: Bass, Trout ,Salmon,Cod'' @ nl @ ''Category:  Fish '' @ nl)
       = Inr [''Bass'', ''Trout'', ''Salmon'', ''Cod'']"
proof -
  let ?r = "''  Group: Bass, Trout ,Salmon,Cod'' @ nl @ ''Category:  Fish '' @ nl"
  have l: "split_on CHR 0x0A ?r = [''  Group: Bass, Trout ,Salmon,Cod'', ''Category:  Fish '', []]"
    by (simp add: nl_def)
  have n: "\<not> raw_has_line ''Group:'' ?r"
    unfolding raw_has_line_def l by (simp add: startswith_def)
  have g: "parse_guesser_reply ?r = Inr ([''Bass'', ''Trout'', ''Salmon'', ''Cod''], ''Fish'')"
    by (simp add: parse_guesser_reply_def nl_def strip_def isspace_def first_line_def
          startswith_def group_words_def)
  have v: "parse_validator_reply ?r = Inr [''Bass'', ''Trout'', ''Salmon'', ''Cod'']"
    by (simp add: parse_validator_reply_def nl_def strip_def isspace_def first_line_def
          startswith_def group_words_def)
  from n l g v show ?thesis by (intro conjI)
qed

text \<open>
  C7, amended. The lines are those of the stripped reply. \<^verbatim>\<open>parse_guesser_reply\<close> raises
  (always a ValueError) exactly when the stripped reply has no line starting with
  \<^verbatim>\<open>Group:\<close>, or none starting with \<^verbatim>\<open>Category:\<close>, or the first group line, its \<^verbatim>\<open>Group:\<close>
  markers removed, does not split at commas into exactly 4 pieces; otherwise it returns the 4
  pieces, each stripped, and the stripped text of the first category line.
  \<^verbatim>\<open>parse_validator_reply\<close> raises exactly when the stripped reply has no group line or the
  split does not give 4 pieces, and otherwise returns the 4 stripped pieces.
\<close>

theorem parse_replies_raise_iff:
  "(isl (parse_guesser_reply reply) \<longleftrightarrow>
      \<not> has_line ''Group:'' reply \<or> \<not> has_line ''Category:'' reply \<or>
      length (split_on CHR '','' (remove_all ''Group:'' (first_line ''Group:'' (reply_lines reply)))) \<noteq> 4)
   \<and> (isl (parse_guesser_reply reply) \<longrightarrow> (\<exists>msg. parse_guesser_reply reply = Inl (ValueError msg)))
   \<and> (\<not> isl (parse_guesser_reply reply) \<longrightarrow>
        (\<exists>ws c. parse_guesser_reply reply = Inr (ws, c) \<and> length ws = 4 \<and>
           list_all stripped ws \<and> stripped c \<and>
           ws = map strip (split_on CHR '','' (remove_all ''Group:'' (first_line ''Group:'' (reply_lines reply)))) \<and>
           c = strip (remove_all ''Category:'' (first_line ''Category:'' (reply_lines reply)))))
   \<and> (isl (parse_validator_reply reply) \<longleftrightarrow>
      \<not> has_line ''Group:'' reply \<or>
      length (split_on CHR '','' (remove_all ''Group:'' (first_line ''Group:'' (reply_lines reply)))) \<noteq> 4)
   \<and> (isl (parse_validator_reply reply) \<longrightarrow> (\<exists>msg. parse_validator_reply reply = Inl (ValueError msg)))
   \<and> (\<not> isl (parse_validator_reply reply) \<longrightarrow>
        (\<exists>ws. parse_validator_reply reply = Inr ws \<and> length ws = 4 \<and> list_all stripped ws \<and>
           ws = map strip (split_on CHR '','' (remove_all ''Group:'' (first_line ''Group:'' (reply_lines reply))))))"
proof -
  have g: "has_line ''Group:'' reply \<longleftrightarrow> first_line ''Group:'' (reply_lines reply) \<noteq> []"
    by (rule has_line_first_line) simp
  have c: "has_line ''Category:'' reply \<longleftrightarrow> first_line ''Category:'' (reply_lines reply) \<noteq> []"
    by (rule has_line_first_line) simp
  have s: "list_all stripped (map strip xs)" for xs
    by (simp add: list_all_iff stripped_strip)
  show ?thesis
    unfolding g c
    by (simp add: parse_guesser_reply_def parse_validator_reply_def Let_def group_words_def
          reply_lines_def stripped_strip s)
qed

theorem parse_replies_raise_iff_witness:
  "\<not> isl (parse_guesser_reply (''  Group: Bass, Trout ,Salmon,Cod'' @ nl @ ''Category:  Fish '' @ nl))
   \<and> parse_guesser_reply (''  Group: Bass, Trout ,Salmon,Cod'' @ nl @ ''Category:  Fish '' @ nl)
       = Inr ([''Bass'', ''Trout'', ''Salmon'', ''Cod''], ''Fish'')
   \<and> \<not> isl (parse_validator_reply (''  Group: Bass, Trout ,Salmon,Cod'' @ nl @ ''Category:  Fish '' @ nl))
   \<and> parse_validator_reply (''  Group: Bass, Trout ,Salmon,Cod'' @ nl @ ''Category:  Fish '' @ nl)
       = Inr [''Bass'', ''Trout'', ''Salmon'', ''Cod'']
   \<and> isl (parse_guesser_reply (''Group: Bass, Trout, Salmon''))
   \<and> (\<exists>msg. parse_guesser_reply (''Group: Bass, Trout, Salmon'') = Inl (ValueError msg))
   \<and> isl (parse_validator_reply (''Group: Bass, Trout, Salmon''))
   \<and> (\<exists>msg. parse_validator_reply (''Group: Bass, Trout, Salmon'') = Inl (ValueError msg))"
proof -
  let ?good = "''  Group: Bass, Trout ,Salmon,Cod'' @ nl @ ''Category:  Fish '' @ nl"
  let ?bad = "''Group: Bass, Trout, Salmon''"
  have ev: "reply_lines ?good = [''Group: Bass, Trout ,Salmon,Cod'', ''Category:  Fish'']"
    "reply_lines ?bad = [''Group: Bass, Trout, Salmon'']"
    by (simp_all add: reply_lines_def nl_def strip_def isspace_def)
  have hg: "has_line ''Group:'' ?good" "has_line ''Category:'' ?good"
    "length (split_on CHR '','' (remove_all ''Group:'' (first_line ''Group:'' (reply_lines ?good)))) = 4"
    unfolding has_line_def ev by (simp_all add: startswith_def first_line_def)
  have hb: "\<not> has_line ''Category:'' ?bad"
    unfolding has_line_def ev by (simp add: startswith_def)
  have vb: "length (split_on CHR '','' (remove_all ''Group:'' (first_line ''Group:'' (reply_lines ?bad)))) \<noteq> 4"
    unfolding ev by (simp add: startswith_def first_line_def)
  have vals: "map strip (split_on CHR '','' (remove_all ''Group:'' (first_line ''Group:'' (reply_lines ?good))))
      = [''Bass'', ''Trout'', ''Salmon'', ''Cod'']"
    "strip (remove_all ''Category:'' (first_line ''Category:'' (reply_lines ?good))) = ''Fish''"
    unfolding ev by (simp_all add: startswith_def first_line_def strip_def isspace_def)
  note good = parse_replies_raise_iff [of ?good]
  note bad = parse_replies_raise_iff [of ?bad]
  have g1: "\<not> isl (parse_guesser_reply ?good)"
    using good [THEN conjunct1] hg by simp
  from good [THEN conjunct2, THEN conjunct2, THEN conjunct1, rule_format, OF g1]
  obtain ws c where "parse_guesser_reply ?good = Inr (ws, c)"
    and "ws = map strip (split_on CHR '','' (remove_all ''Group:'' (first_line ''Group:'' (reply_lines ?good))))"
    and "c = strip (remove_all ''Category:'' (first_line ''Category:'' (reply_lines ?good)))"
    by blast
  then have g2: "parse_guesser_reply ?good = Inr ([''Bass'', ''Trout'', ''Salmon'', ''Cod''], ''Fish'')"
    by (simp only: vals)
  note goodv = good [THEN conjunct2, THEN conjunct2, THEN conjunct2]
  have g3: "\<not> isl (parse_validator_reply ?good)"
    using goodv [THEN conjunct1] hg by simp
  from goodv [THEN conjunct2, THEN conjunct2, rule_format, OF g3]
  obtain vs where "parse_validator_reply ?good = Inr vs"
    and "vs = map strip (split_on CHR '','' (remove_all ''Group:'' (first_line ''Group:'' (reply_lines ?good))))"
    by blast
  then have g4: "parse_validator_reply ?good = Inr [''Bass'', ''Trout'', ''Salmon'', ''Cod'']"
    by (simp only: vals)
  note badv = bad [THEN conjunct2, THEN conjunct2, THEN conjunct2]
  have b1: "isl (parse_guesser_reply ?bad)"
    using bad [THEN conjunct1] hb by simp
  have b2: "\<exists>msg. parse_guesser_reply ?bad = Inl (ValueError msg)"
    using bad [THEN conjunct2, THEN conjunct1] b1 by (rule mp)
  have b3: "isl (parse_validator_reply ?bad)"
    using badv [THEN conjunct1] vb by simp
  have b4: "\<exists>msg. parse_validator_reply ?bad = Inl (ValueError msg)"
    using badv [THEN conjunct2, THEN conjunct1] b3 by (rule mp)
  show ?thesis
    by (intro conjI g1 g2 g3 g4 b1 b2 b3 b4)
qed

section \<open>Properties of the metrics accumulator\<close>

lemma marked_solved_update:
  assumes "marked_solved m l" and "j < length (solves m)"
  shows "marked_solved (m\<lparr>solves := (solves m)[j := True], solve_order := so, points := p\<rparr>) l"
  using assms
  by (auto simp: marked_solved_def py_index_def Let_def nth_list_update split: if_splits)

lemma add_solve_inv:
  assumes "metrics_inv m" and "add_solve m level = Inr m'"
  shows "metrics_inv m'"
proof (cases "py_index (solves m) level")
  case (Inl e)
  with assms(2) show ?thesis by (simp add: add_solve_def)
next
  case (Inr j)
  have j: "j < length (solves m)"
    using Inr by (auto simp: py_index_def Let_def split: if_splits)
  show ?thesis
  proof (cases "solves m ! j")
    case True
    with Inr assms show ?thesis by (simp add: add_solve_def)
  next
    case False
    let ?m' = "m\<lparr>solves := (solves m)[j := True], solve_order := solve_order m @ [level],
                  points := points m + points_per_correct m\<rparr>"
    have m': "m' = ?m'" using Inr False assms(2) by (simp add: add_solve_def)
    have new: "level \<notin> set (solve_order m)"
    proof
      assume "level \<in> set (solve_order m)"
      with assms(1) have "marked_solved m level" by (simp add: metrics_inv_def list_all_iff)
      with Inr False show False by (simp add: marked_solved_def)
    qed
    have old: "list_all (marked_solved ?m') (solve_order m)"
      using assms(1) j by (auto simp: metrics_inv_def list_all_iff intro: marked_solved_update)
    have here: "marked_solved ?m' level"
      using Inr j by (simp add: marked_solved_def py_index_def Let_def split: if_splits)
    have pts: "points ?m' = points_per_correct ?m' * int (length (solve_order ?m'))"
      using assms(1) by (simp add: metrics_inv_def algebra_simps)
    show ?thesis
      unfolding m' metrics_inv_def using assms(1) new old here pts
      by (simp add: metrics_inv_def)
  qed
qed

lemma reachable_inv: "reachable m \<Longrightarrow> metrics_inv m \<and> points_per_correct m = 5"
proof (induction rule: reachable.induct)
  case fresh
  show ?case by (simp add: metrics_inv_def fresh_metrics_def)
next
  case (solve m level m')
  then have "metrics_inv m'" by (blast intro: add_solve_inv)
  moreover have "points_per_correct m' = points_per_correct m"
    using solve.hyps(2) by (auto simp: add_solve_def split: sum.splits if_splits)
  ultimately show ?case using solve.IH by simp
qed

text \<open>
  C10. \<^verbatim>\<open>add_solve\<close> on a level already marked solved returns with the metrics unchanged
  (so \<open>solves\<close>, \<open>solve_order\<close> and \<open>points\<close> are unchanged); and in every state reachable
  from \<^verbatim>\<open>Metrics()\<close> by \<^verbatim>\<open>add_solve\<close> calls, no level occurs twice in \<open>solve_order\<close> and
  \<open>points\<close> is \<open>points_per_correct\<close> times the length of \<open>solve_order\<close>.
\<close>

theorem add_solve_idempotent:
  "(marked_solved m level \<longrightarrow> add_solve m level = Inr m)
   \<and> (reachable m \<longrightarrow>
        distinct (solve_order m) \<and> points m = points_per_correct m * int (length (solve_order m)))"
proof -
  have "add_solve m level = Inr m" if "marked_solved m level"
    using that by (auto simp: marked_solved_def add_solve_def split: sum.splits)
  moreover have "distinct (solve_order m) \<and> points m = points_per_correct m * int (length (solve_order m))"
    if "reachable m"
    using reachable_inv [OF that] by (simp add: metrics_inv_def)
  ultimately show ?thesis by blast
qed

theorem add_solve_idempotent_witness:
  "marked_solved (fresh_metrics\<lparr>solves := [False, False, True, False], solve_order := [2], points := 5\<rparr>) (-2)
   \<and> reachable (fresh_metrics\<lparr>solves := [False, False, True, False], solve_order := [2], points := 5\<rparr>)
   \<and> add_solve (fresh_metrics\<lparr>solves := [False, False, True, False], solve_order := [2], points := 5\<rparr>) (-2)
       = Inr (fresh_metrics\<lparr>solves := [False, False, True, False], solve_order := [2], points := 5\<rparr>)
   \<and> points (fresh_metrics\<lparr>solves := [False, False, True, False], solve_order := [2], points := 5\<rparr>)
       = points_per_correct fresh_metrics * 1"
proof -
  let ?m = "fresh_metrics\<lparr>solves := [False, False, True, False], solve_order := [2], points := 5\<rparr>"
  have step: "add_solve fresh_metrics 2 = Inr ?m"
    by (simp add: add_solve_def py_index_def fresh_metrics_def numeral_eq_Suc)
  have r: "reachable ?m"
    by (rule reachable.solve [OF reachable.fresh step])
  have s: "marked_solved ?m (-2)"
    by (simp add: marked_solved_def py_index_def fresh_metrics_def)
  from add_solve_idempotent [of ?m "-2"] r s show ?thesis
    by (simp add: fresh_metrics_def)
qed

section \<open>Properties of endpoint resolution\<close>

text \<open>
  C8. Constructing an endpoint with \<^verbatim>\<open>base_url\<close> \<^verbatim>\<open>"oai"\<close> (or \<^verbatim>\<open>"groq"\<close>) gives the default URL
  of that key and the value of \<^verbatim>\<open>OPENAI_API_KEY\<close> (or \<^verbatim>\<open>GROQ_API_KEY\<close>) as the API key, and
  raises OSError when that variable is not set; with any other \<^verbatim>\<open>base_url\<close> the given
  \<^verbatim>\<open>base_url\<close> and \<^verbatim>\<open>api_key\<close> are kept.
\<close>

theorem endpoint_resolution:
  "(env ''OPENAI_API_KEY'' = Some k \<longrightarrow>
      Endpoint env ''oai'' mdl key
        = Inr \<lparr>base_url = ''https://api.openai.com/'', model = mdl, api_key = Some k\<rparr>)
   \<and> (env ''GROQ_API_KEY'' = Some k \<longrightarrow>
      Endpoint env ''groq'' mdl key
        = Inr \<lparr>base_url = ''https://api.groq.com/openai/'', model = mdl, api_key = Some k\<rparr>)
   \<and> (env ''OPENAI_API_KEY'' = None \<longrightarrow> (\<exists>msg. Endpoint env ''oai'' mdl key = Inl (OSError msg)))
   \<and> (env ''GROQ_API_KEY'' = None \<longrightarrow> (\<exists>msg. Endpoint env ''groq'' mdl key = Inl (OSError msg)))
   \<and> (url \<noteq> ''oai'' \<and> url \<noteq> ''groq'' \<longrightarrow>
      Endpoint env url mdl key = Inr \<lparr>base_url = url, model = mdl, api_key = key\<rparr>)"
  by (simp add: Endpoint_def post_init_def DEFAULTS_def)

theorem endpoint_resolution_witness:
  "Endpoint [''OPENAI_API_KEY'' \<mapsto> ''sk-1''] ''oai'' ''gpt-4o-mini'' None
     = Inr \<lparr>base_url = ''https://api.openai.com/'', model = ''gpt-4o-mini'', api_key = Some ''sk-1''\<rparr>
   \<and> (\<exists>msg. Endpoint [''OPENAI_API_KEY'' \<mapsto> ''sk-1''] ''groq'' ''llama3'' None = Inl (OSError msg))
   \<and> Endpoint [''GROQ_API_KEY'' \<mapsto> ''gk-2''] ''groq'' ''llama3'' (Some ''old'')
     = Inr \<lparr>base_url = ''https://api.groq.com/openai/'', model = ''llama3'', api_key = Some ''gk-2''\<rparr>
   \<and> (\<exists>msg. Endpoint [''GROQ_API_KEY'' \<mapsto> ''gk-2''] ''oai'' ''gpt-4o-mini'' None = Inl (OSError msg))
   \<and> Endpoint [''GROQ_API_KEY'' \<mapsto> ''gk-2''] ''http://localhost:11434'' ''llama3'' (Some ''old'')
     = Inr \<lparr>base_url = ''http://localhost:11434'', model = ''llama3'', api_key = Some ''old''\<rparr>"
proof -
  have a: "[''OPENAI_API_KEY'' \<mapsto> ''sk-1''] ''OPENAI_API_KEY'' = Some ''sk-1''"
    "[''OPENAI_API_KEY'' \<mapsto> ''sk-1''] ''GROQ_API_KEY'' = None"
    "[''GROQ_API_KEY'' \<mapsto> ''gk-2''] ''GROQ_API_KEY'' = Some ''gk-2''"
    "[''GROQ_API_KEY'' \<mapsto> ''gk-2''] ''OPENAI_API_KEY'' = None"
    "''http://localhost:11434'' \<noteq> ''oai'' \<and> ''http://localhost:11434'' \<noteq> ''groq''"
    by simp_all
  let ?e1 = "[''OPENAI_API_KEY'' \<mapsto> ''sk-1'']"
  let ?e2 = "[''GROQ_API_KEY'' \<mapsto> ''gk-2'']"
  have 1: "Endpoint ?e1 ''oai'' ''gpt-4o-mini'' None
     = Inr \<lparr>base_url = ''https://api.openai.com/'', model = ''gpt-4o-mini'', api_key = Some ''sk-1''\<rparr>"
    using endpoint_resolution [of ?e1 "''sk-1''" "''gpt-4o-mini''" None] a(1) by simp
  have 2: "\<exists>msg. Endpoint ?e1 ''groq'' ''llama3'' None = Inl (OSError msg)"
    using endpoint_resolution [of ?e1 _ "''llama3''" None] a(2) by simp
  have 3: "Endpoint ?e2 ''groq'' ''llama3'' (Some ''old'')
     = Inr \<lparr>base_url = ''https://api.groq.com/openai/'', model = ''llama3'', api_key = Some ''gk-2''\<rparr>"
    using endpoint_resolution [of ?e2 "''gk-2''" "''llama3''" "Some ''old''"] a(3) by simp
  have 4: "\<exists>msg. Endpoint ?e2 ''oai'' ''gpt-4o-mini'' None = Inl (OSError msg)"
    using endpoint_resolution [of ?e2 _ "''gpt-4o-mini''" None] a(4) by simp
  have 5: "Endpoint ?e2 ''http://localhost:11434'' ''llama3'' (Some ''old'')
     = Inr \<lparr>base_url = ''http://localhost:11434'', model = ''llama3'', api_key = Some ''old''\<rparr>"
    using endpoint_resolution [of ?e2 _ "''llama3''" "Some ''old''" "''http://localhost:11434''"] a(5) by simp
  show ?thesis
    by (intro conjI 1 2 3 4 5)
qed

section \<open>One attempt of the protocol\<close>

lemma get_agent_reply_eq:
  "get_agent_reply env st a p =
     (st\<lparr>queries := queries st @ [(a, p, generate_reply env (queries st) a p)]\<rparr>,
      case reply_text (generate_reply env (queries st) a p) of
        None \<Rightarrow> Inl (ValueError (agent_name a @ '' failed to generate a valid reply.''))
      | Some s \<Rightarrow> Inr s)"
  by (simp add: get_agent_reply_def reply_text_def Let_def split: option.splits)

lemma parse_guesser_reply_error:
  "parse_guesser_reply s = Inl e \<Longrightarrow> \<exists>msg. e = ValueError msg"
  by (auto simp: parse_guesser_reply_def Let_def split: if_splits)

lemma parse_validator_reply_error:
  "parse_validator_reply s = Inl e \<Longrightarrow> \<exists>msg. e = ValueError msg"
  by (auto simp: parse_validator_reply_def Let_def split: if_splits)

lemma consensus_verdict_simps [simp]:
  "consensus_verdict (GuesserAgent, p, r) = None"
  "consensus_verdict (ValidatorAgent, p, r) = None"
  "consensus_verdict (ConsensusAgent, p, r) = map_option parse_consensus_reply (reply_text r)"
  by (simp_all add: consensus_verdict_def)

lemma attempt_body_cases:
  assumes "attempt_body env rw board gs k st = (st', s)"
  obtains
    (guesser_failed) e r1 where
      "queries st' = queries st @
         [(GuesserAgent, guesser_prompt_text (feedback_text env (guesses st) rw board) (join '', '' rw) gs, r1)]"
      "guesses st' = guesses st" "s = Raise e"
      "reply_text r1 = None \<or> (\<exists>s1. reply_text r1 = Some s1 \<and> parse_guesser_reply s1 = Inl e)"
  | (validator_failed) e r1 s1 g c r2 where
      "queries st' = queries st @
         [(GuesserAgent, guesser_prompt_text (feedback_text env (guesses st) rw board) (join '', '' rw) gs, r1),
          (ValidatorAgent, validator_prompt_text (feedback_text env (guesses st) rw board) (join '', '' rw) c, r2)]"
      "guesses st' = guesses st" "s = Raise e"
      "reply_text r1 = Some s1" "parse_guesser_reply s1 = Inr (g, c)"
      "reply_text r2 = None \<or> (\<exists>s2. reply_text r2 = Some s2 \<and> parse_validator_reply s2 = Inl e)"
  | (consensus_failed) e r1 s1 g c r2 s2 v r3 where
      "queries st' = queries st @
         [(GuesserAgent, guesser_prompt_text (feedback_text env (guesses st) rw board) (join '', '' rw) gs, r1),
          (ValidatorAgent, validator_prompt_text (feedback_text env (guesses st) rw board) (join '', '' rw) c, r2),
          (ConsensusAgent, consensus_prompt_text g v, r3)]"
      "guesses st' = guesses st" "s = Raise e"
      "reply_text r1 = Some s1" "parse_guesser_reply s1 = Inr (g, c)"
      "reply_text r2 = Some s2" "parse_validator_reply s2 = Inr v"
      "reply_text r3 = None" "e = ValueError (''ConsensusAgent failed to generate a valid reply.'')"
  | (completed) r1 s1 g c r2 s2 v r3 s3 where
      "queries st' = queries st @
         [(GuesserAgent, guesser_prompt_text (feedback_text env (guesses st) rw board) (join '', '' rw) gs, r1),
          (ValidatorAgent, validator_prompt_text (feedback_text env (guesses st) rw board) (join '', '' rw) c, r2),
          (ConsensusAgent, consensus_prompt_text g v, r3)]"
      "guesses st' = record_guess c g (guesses st)"
      "reply_text r1 = Some s1" "parse_guesser_reply s1 = Inr (g, c)"
      "reply_text r2 = Some s2" "parse_validator_reply s2 = Inr v"
      "reply_text r3 = Some s3"
      "s = (if parse_consensus_reply s3 then Return (g, c)
            else if k = max_retries then Raise max_retries_error else Continue)"
  using assms
  unfolding attempt_body_def negotiate_def get_agent_reply_eq Let_def
  by (auto split: option.splits sum.splits prod.splits if_splits simp: agent_name_def)

lemma attempt_body_raises_ValueError:
  assumes "attempt_body env rw board gs k st = (st', Raise e)"
  shows "\<exists>msg. e = ValueError msg"
  using assms
  unfolding attempt_body_def negotiate_def get_agent_reply_eq Let_def
  by (auto split: option.splits sum.splits prod.splits if_splits simp: max_retries_error_def
        dest!: parse_guesser_reply_error parse_validator_reply_error)

lemma attempt_body_summary:
  assumes "attempt_body env rw board gs k st = (st', s)"
  shows "\<exists>new. queries st' = queries st @ new \<and> length new \<le> 3 \<and> asked GuesserAgent new = 1
           \<and> ((\<exists>r. s = Return r) \<longleftrightarrow> (\<exists>i \<in> set new. consensus_verdict i = Some True))
           \<and> (rejections new = 1 \<longrightarrow> s = Continue \<or> s = Raise max_retries_error)
           \<and> (s = Continue \<longrightarrow> rejections new = 1)
           \<and> rejections new \<le> 1"
  using assms
proof (cases rule: attempt_body_cases)
  case (guesser_failed e r1)
  then show ?thesis by (auto simp: asked_def rejections_def)
next
  case (validator_failed e r1 s1 g c r2)
  then show ?thesis by (auto simp: asked_def rejections_def)
next
  case (consensus_failed e r1 s1 g c r2 s2 v r3)
  then show ?thesis by (auto simp: asked_def rejections_def)
next
  case (completed r1 s1 g c r2 s2 v r3 s3)
  then show ?thesis by (auto simp: asked_def rejections_def)
qed

section \<open>The retry loop\<close>

lemma rejections_append: "rejections (xs @ ys) = rejections xs + rejections ys"
  by (simp add: rejections_def)

lemma asked_append: "asked a (xs @ ys) = asked a xs + asked a ys"
  by (simp add: asked_def)

lemma guess_loop_summary:
  "guess_loop env rw board gs ks st = (st', res) \<Longrightarrow>
     \<exists>new. queries st' = queries st @ new \<and> length new \<le> 3 * length ks
        \<and> asked GuesserAgent new \<le> length ks
        \<and> (\<not> isl res \<longleftrightarrow> (\<exists>i \<in> set new. consensus_verdict i = Some True))
        \<and> (isl res \<longrightarrow> (\<exists>msg. res = Inl (ValueError msg)))
        \<and> (rejections new = length ks \<longrightarrow> res = Inl max_retries_error)"
proof (induction ks arbitrary: st)
  case Nil
  then have r: "st' = st" "res = Inl max_retries_error" by simp_all
  show ?case
    unfolding r
    by (intro exI [of _ "[]"]) (simp add: max_retries_error_def rejections_def asked_def)
next
  case (Cons k rest)
  obtain st1 s where a: "attempt_body env rw board gs k st = (st1, s)"
    by (cases "attempt_body env rw board gs k st")
  from attempt_body_summary [OF a] obtain new1 where n1c:
    "queries st1 = queries st @ new1 \<and> length new1 \<le> 3 \<and> asked GuesserAgent new1 = 1
     \<and> ((\<exists>r. s = Return r) \<longleftrightarrow> (\<exists>i \<in> set new1. consensus_verdict i = Some True))
     \<and> (rejections new1 = 1 \<longrightarrow> s = Continue \<or> s = Raise max_retries_error)
     \<and> (s = Continue \<longrightarrow> rejections new1 = 1)
     \<and> rejections new1 \<le> 1" ..
  then have n1:
    "queries st1 = queries st @ new1" "length new1 \<le> 3" "asked GuesserAgent new1 = 1"
    "(\<exists>r. s = Return r) \<longleftrightarrow> (\<exists>i \<in> set new1. consensus_verdict i = Some True)"
    "rejections new1 = 1 \<longrightarrow> s = Continue \<or> s = Raise max_retries_error"
    "s = Continue \<longrightarrow> rejections new1 = 1" "rejections new1 \<le> 1"
    by simp_all
  show ?case
  proof (cases s)
    case (Raise e)
    with a Cons.prems have r: "st' = st1" "res = Inl e" by simp_all
    from attempt_body_raises_ValueError a Raise obtain msg where "e = ValueError msg" by blast
    have rej: "rejections new1 = length (k # rest) \<longrightarrow> res = Inl max_retries_error"
      using n1(5,7) Raise r by auto
    have noret: "\<not> (\<exists>i \<in> set new1. consensus_verdict i = Some True)"
      using n1(4) Raise by simp
    show ?thesis
    proof (intro exI [of _ new1] conjI)
      show "queries st' = queries st @ new1" using n1 r by simp
      show "length new1 \<le> 3 * length (k # rest)" using n1 by simp
      show "asked GuesserAgent new1 \<le> length (k # rest)" using n1 by simp
      show "(\<not> isl res) = (\<exists>i\<in>set new1. consensus_verdict i = Some True)"
        using noret r by simp
      show "isl res \<longrightarrow> (\<exists>msg. res = Inl (ValueError msg))"
        using r \<open>e = ValueError msg\<close> by simp
      show "rejections new1 = length (k # rest) \<longrightarrow> res = Inl max_retries_error" by (rule rej)
    qed
  next
    case (Return r)
    with a Cons.prems have r: "st' = st1" "res = Inr r" by simp_all
    have ret: "\<exists>i \<in> set new1. consensus_verdict i = Some True"
      using n1(4) Return by simp
    have rej: "rejections new1 \<noteq> length (k # rest)"
      using n1(5,7) Return by auto
    show ?thesis
    proof (intro exI [of _ new1] conjI)
      show "queries st' = queries st @ new1" using n1 r by simp
      show "length new1 \<le> 3 * length (k # rest)" using n1 by simp
      show "asked GuesserAgent new1 \<le> length (k # rest)" using n1 by simp
      show "(\<not> isl res) = (\<exists>i\<in>set new1. consensus_verdict i = Some True)"
        using ret r by simp
      show "isl res \<longrightarrow> (\<exists>msg. res = Inl (ValueError msg))"
        using r by simp
      show "rejections new1 = length (k # rest) \<longrightarrow> res = Inl max_retries_error"
        using rej by simp
    qed
  next
    case Continue
    with a Cons.prems have "guess_loop env rw board gs rest st1 = (st', res)" by simp
    from Cons.IH [OF this] obtain new2 where n2c:
      "queries st' = queries st1 @ new2 \<and> length new2 \<le> 3 * length rest
      \<and> asked GuesserAgent new2 \<le> length rest
      \<and> (\<not> isl res \<longleftrightarrow> (\<exists>i \<in> set new2. consensus_verdict i = Some True))
      \<and> (isl res \<longrightarrow> (\<exists>msg. res = Inl (ValueError msg)))
      \<and> (rejections new2 = length rest \<longrightarrow> res = Inl max_retries_error)" ..
    then have n2:
      "queries st' = queries st1 @ new2" "length new2 \<le> 3 * length rest"
      "asked GuesserAgent new2 \<le> length rest"
      "\<not> isl res \<longleftrightarrow> (\<exists>i \<in> set new2. consensus_verdict i = Some True)"
      "isl res \<longrightarrow> (\<exists>msg. res = Inl (ValueError msg))"
      "rejections new2 = length rest \<longrightarrow> res = Inl max_retries_error"
      by simp_all
    have none1: "\<not> (\<exists>i \<in> set new1. consensus_verdict i = Some True)"
      using n1(4) Continue by simp
    have rej1: "rejections new1 = 1"
      using n1(6) Continue by simp
    show ?thesis
    proof (intro exI [of _ "new1 @ new2"] conjI)
      show "queries st' = queries st @ new1 @ new2" using n1 n2 by simp
      show "length (new1 @ new2) \<le> 3 * length (k # rest)" using n1 n2 by simp
      show "asked GuesserAgent (new1 @ new2) \<le> length (k # rest)"
        using n1 n2 by (simp add: asked_append)
      show "(\<not> isl res) = (\<exists>i\<in>set (new1 @ new2). consensus_verdict i = Some True)"
        using none1 n2(4) by auto
      show "isl res \<longrightarrow> (\<exists>msg. res = Inl (ValueError msg))" by (rule n2(5))
      show "rejections (new1 @ new2) = length (k # rest) \<longrightarrow> res = Inl max_retries_error"
        using rej1 n2(6) by (simp add: rejections_append)
    qed
  qed
qed

lemma new_queries_append: "queries st' = queries st @ new \<Longrightarrow> new_queries st st' = new"
  by (simp add: new_queries_def)

lemma length_attempts: "length [1..<max_retries + 1] = 15"
  by (simp add: max_retries_def)

section \<open>The example runs, evaluated\<close>

lemma parse_demo_guesser:
  "parse_guesser_reply fish_reply = Inr (fish, ''Fish'')"
  by (simp add: fish_reply_def parse_guesser_reply_def nl_def strip_def isspace_def first_line_def
        startswith_def group_words_def fish_def)

lemma parse_demo_validator:
  "parse_validator_reply ''Group: Cod, Bass, Trout, Salmon'' = Inr [''Cod'', ''Bass'', ''Trout'', ''Salmon'']"
  "parse_validator_reply ''Group: Cod, Bass, Trout, Ant'' = Inr [''Cod'', ''Bass'', ''Trout'', ''Ant'']"
  by (simp_all add: parse_validator_reply_def strip_def isspace_def first_line_def
        startswith_def group_words_def)

lemma parse_demo_short:
  "parse_validator_reply ''Group: Cod, Bass'' = Inl (ValueError ''ValidatorAgent's group does not contain exactly 4 words.'')"
  by (simp add: parse_validator_reply_def strip_def isspace_def first_line_def
        startswith_def group_words_def)

lemma parse_demo_consensus:
  "parse_consensus_reply ''Consensus reached'' = True"
  "parse_consensus_reply ''Consensus not reached'' = False"
  by code_simp+


lemma parse_demo_malformed:
  "parse_guesser_reply ''Group: Bass, Trout, Salmon, Cod'' = Inl (ValueError ''GuesserAgent's reply is missing 'Category'.'')"
  by (simp add: parse_guesser_reply_def strip_def isspace_def first_line_def
        startswith_def group_words_def)


lemma reply_text_simps:
  "reply_text (ReplyStr s) = (if s = [] then None else Some s)"
  "reply_text (ReplyDict (Some s)) = (if s = [] then None else Some s)"
  "reply_text (ReplyDict None) = None"
  "reply_text ReplyOther = None"
  by (simp_all add: reply_text_def extract_reply_str_def)

lemma fish_reply_nonempty: "fish_reply \<noteq> []"
  by (simp add: fish_reply_def)

lemma demo_replies:
  "generate_reply agreeing h GuesserAgent p = ReplyStr fish_reply"
  "generate_reply agreeing h ValidatorAgent p = ReplyStr ''Group: Cod, Bass, Trout, Salmon''"
  "generate_reply agreeing h ConsensusAgent p = ReplyDict (Some ''Consensus reached'')"
  "generate_reply disagreeing h GuesserAgent p = ReplyStr fish_reply"
  "generate_reply disagreeing h ValidatorAgent p = ReplyStr ''Group: Cod, Bass, Trout, Ant''"
  "generate_reply disagreeing h ConsensusAgent p = ReplyStr ''Consensus not reached''"
  "generate_reply malformed h GuesserAgent p = ReplyStr ''Group: Bass, Trout, Salmon, Cod''"
  "generate_reply half_checked h GuesserAgent p = ReplyStr fish_reply"
  "generate_reply half_checked h ValidatorAgent p = ReplyStr ''Group: Cod, Bass''"
  by (simp_all add: agreeing_def disagreeing_def malformed_def half_checked_def)

lemma attempt_agreeing:
  "attempt_body agreeing rw board gs k st =
     (st\<lparr>guesses := record_guess ''Fish'' fish (guesses st),
         queries := queries st @
           [(GuesserAgent, guesser_prompt_text (feedback_text agreeing (guesses st) rw board) (join '', '' rw) gs,
               ReplyStr fish_reply),
            (ValidatorAgent, validator_prompt_text (feedback_text agreeing (guesses st) rw board) (join '', '' rw) ''Fish'',
               ReplyStr ''Group: Cod, Bass, Trout, Salmon''),
            (ConsensusAgent, consensus_prompt_text fish [''Cod'', ''Bass'', ''Trout'', ''Salmon''],
               ReplyDict (Some ''Consensus reached''))]\<rparr>,
      Return (fish, ''Fish''))"
  by (simp add: attempt_body_def negotiate_def get_agent_reply_eq Let_def
        reply_text_simps fish_reply_nonempty demo_replies
        parse_demo_guesser parse_demo_validator parse_demo_consensus)

lemma attempt_disagreeing:
  "attempt_body disagreeing rw board gs k st =
     (st\<lparr>guesses := record_guess ''Fish'' fish (guesses st),
         queries := queries st @
           [(GuesserAgent, guesser_prompt_text (feedback_text disagreeing (guesses st) rw board) (join '', '' rw) gs,
               ReplyStr fish_reply),
            (ValidatorAgent, validator_prompt_text (feedback_text disagreeing (guesses st) rw board) (join '', '' rw) ''Fish'',
               ReplyStr ''Group: Cod, Bass, Trout, Ant''),
            (ConsensusAgent, consensus_prompt_text fish [''Cod'', ''Bass'', ''Trout'', ''Ant''],
               ReplyStr ''Consensus not reached'')]\<rparr>,
      if k = max_retries then Raise max_retries_error else Continue)"
  by (simp add: attempt_body_def negotiate_def get_agent_reply_eq Let_def
        reply_text_simps fish_reply_nonempty demo_replies
        parse_demo_guesser parse_demo_validator parse_demo_consensus)

lemma attempt_malformed:
  "attempt_body malformed rw board gs k st =
     (st\<lparr>queries := queries st @
           [(GuesserAgent, guesser_prompt_text (feedback_text malformed (guesses st) rw board) (join '', '' rw) gs,
               ReplyStr ''Group: Bass, Trout, Salmon, Cod'')]\<rparr>,
      Raise (ValueError ''GuesserAgent's reply is missing 'Category'.''))"
  by (simp add: attempt_body_def negotiate_def get_agent_reply_eq Let_def
        reply_text_simps fish_reply_nonempty demo_replies
        parse_demo_malformed)

lemma attempt_short_validator:
  "attempt_body half_checked rw board gs k st =
     (st\<lparr>queries := queries st @
           [(GuesserAgent, guesser_prompt_text (feedback_text half_checked (guesses st) rw board) (join '', '' rw) gs,
               ReplyStr fish_reply),
            (ValidatorAgent, validator_prompt_text (feedback_text half_checked (guesses st) rw board) (join '', '' rw) ''Fish'',
               ReplyStr ''Group: Cod, Bass'')]\<rparr>,
      Raise (ValueError ''ValidatorAgent's group does not contain exactly 4 words.''))"
  by (simp add: attempt_body_def negotiate_def get_agent_reply_eq Let_def
        reply_text_simps fish_reply_nonempty demo_replies
        parse_demo_guesser parse_demo_short)

lemma speechless_replies:
  "generate_reply speechless h GuesserAgent p = ReplyStr fish_reply"
  "generate_reply speechless h ValidatorAgent p = ReplyStr ''Group: Cod, Bass, Trout, Salmon''"
  "generate_reply speechless h ConsensusAgent p = ReplyOther"
  by (simp_all add: speechless_def)

lemma attempt_speechless:
  "attempt_body speechless rw board gs k st =
     (st\<lparr>queries := queries st @
           [(GuesserAgent, guesser_prompt_text (feedback_text speechless (guesses st) rw board) (join '', '' rw) gs,
               ReplyStr fish_reply),
            (ValidatorAgent, validator_prompt_text (feedback_text speechless (guesses st) rw board) (join '', '' rw) ''Fish'',
               ReplyStr ''Group: Cod, Bass, Trout, Salmon''),
            (ConsensusAgent, consensus_prompt_text fish [''Cod'', ''Bass'', ''Trout'', ''Salmon''], ReplyOther)]\<rparr>,
      Raise (ValueError ''ConsensusAgent failed to generate a valid reply.''))"
  by (simp add: attempt_body_def negotiate_def get_agent_reply_eq Let_def
        reply_text_simps fish_reply_nonempty speechless_replies
        parse_demo_guesser parse_demo_validator agent_name_def)

lemma attempts_unfold: "[1..<max_retries + 1] = [1, 2, 3, 4, 5, 6, 7, 8, 9, 10, 11, 12, 13, 14, 15]"
  by (simp add: max_retries_def upt_conv_Cons)

lemma guess_agreeing:
  "guess agreeing rw board gs st = (fst (attempt_body agreeing rw board gs 1 st), Inr (fish, ''Fish''))"
  unfolding guess_def attempts_unfold by (simp add: attempt_agreeing)

lemma guess_malformed:
  "guess malformed rw board gs st =
     (fst (attempt_body malformed rw board gs 1 st), Inl (ValueError ''GuesserAgent's reply is missing 'Category'.''))"
  unfolding guess_def attempts_unfold by (simp add: attempt_malformed)

lemma guess_disagreeing:
  "snd (guess disagreeing rw board gs st) = Inl max_retries_error"
  "rejections (new_queries st (fst (guess disagreeing rw board gs st))) = 15"
  "length (new_queries st (fst (guess disagreeing rw board gs st))) = 45"
  unfolding guess_def attempts_unfold
  by (simp_all add: attempt_disagreeing max_retries_def new_queries_def
       rejections_def parse_demo_consensus reply_text_simps)

section \<open>Properties of \<^verbatim>\<open>GVCSolver.guess\<close>\<close>

text \<open>
  C1. A call of \<^verbatim>\<open>guess\<close> runs at most 15 attempts (each attempt asks the guesser exactly
  once, so at most 15 guesser queries are added); it returns normally exactly when some
  consensus check of the call parsed as reached; otherwise it raises a ValueError, and when
  15 consensus checks parsed as not reached that error is the one for the exhausted retries.
\<close>

theorem guess_bounded_retries:
  "guess env remaining_words entire_game_board group_size self = (self', res) \<Longrightarrow>
     queries self' = queries self @ new_queries self self'
     \<and> asked GuesserAgent (new_queries self self') \<le> 15
     \<and> (\<not> isl res \<longleftrightarrow> (\<exists>i \<in> set (new_queries self self'). consensus_verdict i = Some True))
     \<and> (isl res \<longrightarrow> (\<exists>msg. res = Inl (ValueError msg)))
     \<and> (rejections (new_queries self self') = 15 \<longrightarrow>
          res = Inl (ValueError ''Consensus not reached after maximum retries. Unable to make a guess.''))"
proof -
  assume "guess env remaining_words entire_game_board group_size self = (self', res)"
  then have "guess_loop env remaining_words entire_game_board group_size [1..<max_retries + 1] self = (self', res)"
    by (simp add: guess_def)
  from guess_loop_summary [OF this] obtain new where nc:
    "queries self' = queries self @ new \<and> length new \<le> 3 * length [1..<max_retries + 1]
    \<and> asked GuesserAgent new \<le> length [1..<max_retries + 1]
    \<and> (\<not> isl res \<longleftrightarrow> (\<exists>i \<in> set new. consensus_verdict i = Some True))
    \<and> (isl res \<longrightarrow> (\<exists>msg. res = Inl (ValueError msg)))
    \<and> (rejections new = length [1..<max_retries + 1] \<longrightarrow> res = Inl max_retries_error)" ..
  then have n:
    "queries self' = queries self @ new" "length new \<le> 3 * length [1..<max_retries + 1]"
    "asked GuesserAgent new \<le> length [1..<max_retries + 1]"
    "\<not> isl res \<longleftrightarrow> (\<exists>i \<in> set new. consensus_verdict i = Some True)"
    "isl res \<longrightarrow> (\<exists>msg. res = Inl (ValueError msg))"
    "rejections new = length [1..<max_retries + 1] \<longrightarrow> res = Inl max_retries_error"
    by simp_all
  have nq: "new_queries self self' = new" using n(1) by (rule new_queries_append)
  show ?thesis
    unfolding nq using n unfolding length_attempts max_retries_error_def by simp
qed

theorem guess_bounded_retries_witness:
  "snd (guess agreeing demo_words demo_words 4 new_solver) = Inr (fish, ''Fish'')
   \<and> (\<exists>i \<in> set (new_queries new_solver (fst (guess agreeing demo_words demo_words 4 new_solver))).
         consensus_verdict i = Some True)
   \<and> asked GuesserAgent (new_queries new_solver (fst (guess disagreeing demo_words demo_words 4 new_solver))) \<le> 15
   \<and> rejections (new_queries new_solver (fst (guess disagreeing demo_words demo_words 4 new_solver))) = 15
   \<and> snd (guess disagreeing demo_words demo_words 4 new_solver)
       = Inl (ValueError ''Consensus not reached after maximum retries. Unable to make a guess.'')
   \<and> isl (snd (guess malformed demo_words demo_words 4 new_solver))
   \<and> (\<exists>msg. snd (guess malformed demo_words demo_words 4 new_solver) = Inl (ValueError msg))"
proof -
  let ?a = "guess agreeing demo_words demo_words 4 new_solver"
  let ?d = "guess disagreeing demo_words demo_words 4 new_solver"
  let ?m = "guess malformed demo_words demo_words 4 new_solver"
  have a: "?a = (fst ?a, snd ?a)" and d: "?d = (fst ?d, snd ?d)" and m: "?m = (fst ?m, snd ?m)"
    by simp_all
  note ta = guess_bounded_retries [OF a]
  note td = guess_bounded_retries [OF d]
  note tm = guess_bounded_retries [OF m]
  have a1: "snd ?a = Inr (fish, ''Fish'')"
    by (simp add: guess_agreeing)
  then have "\<not> isl (snd ?a)" by simp
  with ta have a2: "\<exists>i \<in> set (new_queries new_solver (fst ?a)). consensus_verdict i = Some True"
    by simp
  have d0: "asked GuesserAgent (new_queries new_solver (fst ?d)) \<le> 15"
    using td by simp
  have d1: "rejections (new_queries new_solver (fst ?d)) = 15"
    by (rule guess_disagreeing)
  with td have d2: "snd ?d = Inl (ValueError ''Consensus not reached after maximum retries. Unable to make a guess.'')"
    by simp
  have m1: "isl (snd ?m)"
    by (simp add: guess_malformed)
  with tm have m2: "\<exists>msg. snd ?m = Inl (ValueError msg)"
    by simp
  show ?thesis
    by (intro conjI a1 a2 d0 d1 d2 m1 m2)
qed

section \<open>Rounds and the feedback store\<close>

lemma parse_guesser_reply_not_max:
  "parse_guesser_reply s = Inl e \<Longrightarrow> e \<noteq> max_retries_error"
  by (auto simp: parse_guesser_reply_def Let_def max_retries_error_def split: if_splits)

lemma parse_validator_reply_not_max:
  "parse_validator_reply s = Inl e \<Longrightarrow> e \<noteq> max_retries_error"
  by (auto simp: parse_validator_reply_def Let_def max_retries_error_def split: if_splits)

lemma agent_failure_not_max:
  "ValueError (agent_name a @ '' failed to generate a valid reply.'') \<noteq> max_retries_error"
  by (cases a) (simp_all add: agent_name_def max_retries_error_def)

lemma negotiate_failed:
  assumes "negotiate env rw board gs st = (st', Inl e)"
  shows "guesses st' = guesses st \<and> e \<noteq> max_retries_error \<and> (\<exists>new. queries st' = queries st @ new)"
  using assms agent_failure_not_max
  unfolding negotiate_def get_agent_reply_eq Let_def
  by (auto split: option.splits sum.splits prod.splits if_splits
        dest!: parse_guesser_reply_not_max parse_validator_reply_not_max)

lemma negotiate_completed:
  assumes "negotiate env rw board gs st = (st', Inr (g, c, v, b))"
  shows "\<exists>r1 s1 r2 s2 r3 s3.
      r1 = generate_reply env (queries st) GuesserAgent
             (guesser_prompt_text (feedback_text env (guesses st) rw board) (join '', '' rw) gs) \<and>
      r2 = generate_reply env
             (queries st @ [(GuesserAgent, guesser_prompt_text (feedback_text env (guesses st) rw board) (join '', '' rw) gs, r1)])
             ValidatorAgent
             (validator_prompt_text (feedback_text env (guesses st) rw board) (join '', '' rw) c) \<and>
      r3 = generate_reply env
             (queries st @ [(GuesserAgent, guesser_prompt_text (feedback_text env (guesses st) rw board) (join '', '' rw) gs, r1),
                            (ValidatorAgent, validator_prompt_text (feedback_text env (guesses st) rw board) (join '', '' rw) c, r2)])
             ConsensusAgent (consensus_prompt_text g v) \<and>
      queries st' = queries st @
         [(GuesserAgent, guesser_prompt_text (feedback_text env (guesses st) rw board) (join '', '' rw) gs, r1),
          (ValidatorAgent, validator_prompt_text (feedback_text env (guesses st) rw board) (join '', '' rw) c, r2),
          (ConsensusAgent, consensus_prompt_text g v, r3)] \<and>
      guesses st' = guesses st \<and>
      reply_text r1 = Some s1 \<and> parse_guesser_reply s1 = Inr (g, c) \<and>
      reply_text r2 = Some s2 \<and> parse_validator_reply s2 = Inr v \<and>
      reply_text r3 = Some s3 \<and> parse_consensus_reply s3 = b"
  using assms
  unfolding negotiate_def get_agent_reply_eq Let_def
  by (auto split: option.splits sum.splits prod.splits if_splits)

lemma consensus_roundI:
  assumes "log = [(GuesserAgent, p1, r1), (ValidatorAgent, p2, r2), (ConsensusAgent, consensus_prompt_text g v, r3)]"
    and "reply_text r1 = Some s1" and "parse_guesser_reply s1 = Inr (g, c)"
    and "reply_text r2 = Some s2" and "parse_validator_reply s2 = Inr v"
    and "reply_text r3 = Some s3" and "parse_consensus_reply s3 = b"
  shows "consensus_round log g c v b"
  unfolding consensus_round_def using assms by (intro exI conjI)

lemma negotiate_round:
  assumes "negotiate env rw board gs st = (st', Inr (g, c, v, b))"
  shows "queries st' = queries st @ new_queries st st' \<and> guesses st' = guesses st
         \<and> consensus_round (new_queries st st') g c v b"
proof -
  from negotiate_completed [OF assms] obtain r1 s1 r2 s2 r3 s3 where
    q: "queries st' = queries st @
         [(GuesserAgent, guesser_prompt_text (feedback_text env (guesses st) rw board) (join '', '' rw) gs, r1),
          (ValidatorAgent, validator_prompt_text (feedback_text env (guesses st) rw board) (join '', '' rw) c, r2),
          (ConsensusAgent, consensus_prompt_text g v, r3)]"
    and g: "guesses st' = guesses st"
    and r: "reply_text r1 = Some s1" "parse_guesser_reply s1 = Inr (g, c)"
      "reply_text r2 = Some s2" "parse_validator_reply s2 = Inr v"
      "reply_text r3 = Some s3" "parse_consensus_reply s3 = b"
    by (elim exE conjE)
  have n: "new_queries st st' =
         [(GuesserAgent, guesser_prompt_text (feedback_text env (guesses st) rw board) (join '', '' rw) gs, r1),
          (ValidatorAgent, validator_prompt_text (feedback_text env (guesses st) rw board) (join '', '' rw) c, r2),
          (ConsensusAgent, consensus_prompt_text g v, r3)]"
    using q by (simp add: new_queries_def)
  have "consensus_round (new_queries st st') g c v b"
    using n r by (rule consensus_roundI)
  moreover have "queries st' = queries st @ new_queries st st'"
    using q n by simp
  ultimately show ?thesis using g by simp
qed

text \<open>What an attempt leaves behind: either it raised before the store was touched, or it
  went through a whole round and recorded the guesser's pair.\<close>

lemma attempt_body_round:
  assumes "attempt_body env rw board gs k st = (st', s)"
  shows "(\<exists>e. s = Raise e \<and> e \<noteq> max_retries_error \<and> guesses st' = guesses st
            \<and> (\<exists>new. queries st' = queries st @ new))
       \<or> (\<exists>g c v b. consensus_round (new_queries st st') g c v b
            \<and> queries st' = queries st @ new_queries st st'
            \<and> guesses st' = record_guess c g (guesses st)
            \<and> s = (if b then Return (g, c)
                   else if k = max_retries then Raise max_retries_error else Continue))"
proof (cases "negotiate env rw board gs st")
  case (Pair st3 res)
  show ?thesis
  proof (cases res)
    case (Inl e)
    with Pair assms have "st' = st3" "s = Raise e"
      by (simp_all add: attempt_body_def)
    with negotiate_failed [of env rw board gs st st3 e] Pair Inl show ?thesis
      by simp
  next
    case (Inr x)
    then obtain g c v b where x: "res = Inr (g, c, v, b)"
      by (cases x) auto
    from negotiate_round [of env rw board gs st st3 g c v b] Pair x
    have n: "queries st3 = queries st @ new_queries st st3" "guesses st3 = guesses st"
      "consensus_round (new_queries st st3) g c v b"
      by simp_all
    from Pair x assms
    have s: "st' = st3\<lparr>guesses := record_guess c g (guesses st3)\<rparr>"
      "s = (if b then Return (g, c) else if k = max_retries then Raise max_retries_error else Continue)"
      by (auto simp: attempt_body_def Let_def split: if_splits)
    have q: "new_queries st st' = new_queries st st3"
      using s(1) by (simp add: new_queries_def)
    have "consensus_round (new_queries st st') g c v b
            \<and> queries st' = queries st @ new_queries st st'
            \<and> guesses st' = record_guess c g (guesses st)
            \<and> s = (if b then Return (g, c)
                   else if k = max_retries then Raise max_retries_error else Continue)"
      unfolding q using n s by simp
    then show ?thesis by (intro disjI2 exI)
  qed
qed

lemma record_guess_keeps:
  assumes "(k, w) \<in> set gs"
  shows "(k, if k = c then w @ [g] else w) \<in> set (record_guess c g gs)"
proof -
  let ?f = "\<lambda>(c', word_groups). if c' = c then (c', word_groups @ [g]) else (c', word_groups)"
  let ?gs1 = "if c \<notin> fst ` set gs then gs @ [(c, [])] else gs"
  have rg: "record_guess c g gs = map ?f ?gs1"
    by (simp only: record_guess_def Let_def)
  have "(k, w) \<in> set ?gs1"
    using assms by simp
  then have a: "?f (k, w) \<in> ?f ` set ?gs1"
    by (rule imageI)
  have b: "?f (k, w) = (k, if k = c then w @ [g] else w)"
    by simp
  from a have "(k, if k = c then w @ [g] else w) \<in> ?f ` set ?gs1"
    unfolding b .
  then show ?thesis
    unfolding rg set_map .
qed

lemma record_guess_origin:
  assumes "(k, w') \<in> set (record_guess c g gs)"
  shows "(\<exists>w. (k, w) \<in> set gs \<and> (w' = w \<or> (k = c \<and> w' = w @ [g]))) \<or> (k = c \<and> w' = [g])"
  using assms
  by (auto simp: record_guess_def Let_def split: if_splits)

lemma listed_record_guess: "listed c g (record_guess c g gs)"
proof (cases "c \<in> fst ` set gs")
  case True
  then obtain w where "(c, w) \<in> set gs" by auto
  from record_guess_keeps [OF this, of c g]
  have "(c, w @ [g]) \<in> set (record_guess c g gs)" by simp
  then show ?thesis
    unfolding listed_def by (intro exI [of _ "w @ [g]"]) simp
next
  case False
  then have "(c, [g]) \<in> set (record_guess c g gs)"
    by (simp add: record_guess_def Let_def)
  then show ?thesis
    unfolding listed_def by (intro exI [of _ "[g]"]) simp
qed

lemma listed_mono:
  assumes "listed c g gs"
  shows "listed c g (record_guess c' g' gs)"
proof -
  from assms obtain w where w: "(c, w) \<in> set gs" "g \<in> set w"
    unfolding listed_def by (elim exE conjE)
  from record_guess_keeps [OF w(1), of c' g']
  have "(c, if c = c' then w @ [g'] else w) \<in> set (record_guess c' g' gs)" .
  moreover have "g \<in> set (if c = c' then w @ [g'] else w)" using w(2) by simp
  ultimately show ?thesis
    unfolding listed_def by (intro exI [of _ "if c = c' then w @ [g'] else w"] conjI)
qed

lemma listed_record_guess_cases:
  assumes "listed c g (record_guess c' g' gs)"
  shows "listed c g gs \<or> (c = c' \<and> g = g')"
proof -
  from assms obtain w' where w: "(c, w') \<in> set (record_guess c' g' gs)" "g \<in> set w'"
    unfolding listed_def by (elim exE conjE)
  from record_guess_origin [OF w(1)] w(2) show ?thesis
    unfolding listed_def by auto
qed

section \<open>The store and the record over a whole call\<close>

lemma guess_loop_extends:
  "guess_loop env rw board gs ks st = (st', res) \<Longrightarrow> \<exists>new. queries st' = queries st @ new"
proof (induction ks arbitrary: st)
  case Nil
  then show ?case by simp
next
  case (Cons k rest)
  obtain st1 s where a: "attempt_body env rw board gs k st = (st1, s)"
    by (cases "attempt_body env rw board gs k st")
  from attempt_body_round [OF a] obtain new1 where n1: "queries st1 = queries st @ new1"
    by (elim disjE exE conjE)
  show ?case
  proof (cases s)
    case (Raise e)
    with a Cons.prems have "st' = st1" by simp
    with n1 show ?thesis by simp
  next
    case (Return r)
    with a Cons.prems have "st' = st1" by simp
    with n1 show ?thesis by simp
  next
    case Continue
    with a Cons.prems have "guess_loop env rw board gs rest st1 = (st', res)" by simp
    from Cons.IH [OF this] obtain new2 where "queries st' = queries st1 @ new2" ..
    with n1 have "queries st' = queries st @ (new1 @ new2)" by simp
    then show ?thesis ..
  qed
qed

text \<open>The store only grows: a pair once listed stays listed.\<close>

lemma attempt_body_listed_mono:
  assumes "attempt_body env rw board gs k st = (st', s)" and "listed c g (guesses st)"
  shows "listed c g (guesses st')"
  using attempt_body_round [OF assms(1)] assms(2)
  by (elim disjE exE conjE) (simp_all add: listed_mono)

lemma guess_loop_listed_mono:
  "guess_loop env rw board gs ks st = (st', res) \<Longrightarrow> listed c g (guesses st) \<Longrightarrow> listed c g (guesses st')"
proof (induction ks arbitrary: st)
  case Nil
  then show ?case by simp
next
  case (Cons k rest)
  obtain st1 s where a: "attempt_body env rw board gs k st = (st1, s)"
    by (cases "attempt_body env rw board gs k st")
  have l1: "listed c g (guesses st1)"
    using a Cons.prems(2) by (rule attempt_body_listed_mono)
  show ?case
  proof (cases s)
    case (Raise e)
    with a Cons.prems have "st' = st1" by simp
    with l1 show ?thesis by simp
  next
    case (Return r)
    with a Cons.prems have "st' = st1" by simp
    with l1 show ?thesis by simp
  next
    case Continue
    with a Cons.prems have "guess_loop env rw board gs rest st1 = (st', res)" by simp
    from Cons.IH [OF this l1] show ?thesis .
  qed
qed

text \<open>A returned pair comes from the last round of the call, and that round agreed.\<close>

lemma guess_loop_returns:
  "guess_loop env rw board gs ks st = (st', Inr (g, c)) \<Longrightarrow>
     \<exists>pre round v. queries st' = queries st @ pre @ round \<and> consensus_round round g c v True
        \<and> listed c g (guesses st')"
proof (induction ks arbitrary: st)
  case Nil
  then show ?case by simp
next
  case (Cons k rest)
  obtain st1 s where a: "attempt_body env rw board gs k st = (st1, s)"
    by (cases "attempt_body env rw board gs k st")
  show ?case
  proof (cases s)
    case (Raise e)
    with a Cons.prems show ?thesis by simp
  next
    case (Return r)
    with a Cons.prems have r: "st' = st1" "r = (g, c)" by simp_all
    from attempt_body_round [OF a] Return r(2)
    obtain g' c' v b where n: "consensus_round (new_queries st st1) g' c' v b"
      "queries st1 = queries st @ new_queries st st1"
      "guesses st1 = record_guess c' g' (guesses st)"
      "Return (g, c) = (if b then Return (g', c')
                   else if k = max_retries then Raise max_retries_error else Continue)"
      by (elim disjE exE conjE) simp_all
    from n(4) have b: "b" "g' = g" "c' = c"
      by (simp_all split: if_splits)
    have "queries st' = queries st @ [] @ new_queries st st1"
      using n(2) r(1) by simp
    moreover have "consensus_round (new_queries st st1) g c v True"
      using n(1) b by simp
    moreover have "listed c g (guesses st')"
      using n(3) b r(1) by (simp add: listed_record_guess)
    ultimately show ?thesis by (intro exI conjI)
  next
    case Continue
    with a Cons.prems have "guess_loop env rw board gs rest st1 = (st', Inr (g, c))" by simp
    from Cons.IH [OF this] obtain pre round v where n2:
      "queries st' = queries st1 @ pre @ round \<and> consensus_round round g c v True
        \<and> listed c g (guesses st')"
      by (elim exE)
    from attempt_body_round [OF a] obtain new1 where n1: "queries st1 = queries st @ new1"
      by (elim disjE exE conjE)
    have "queries st' = queries st @ (new1 @ pre) @ round"
      using n1 n2 by simp
    moreover have "consensus_round round g c v True" using n2 by simp
    moreover have "listed c g (guesses st')" using n2 by simp
    ultimately show ?thesis by (intro exI conjI)
  qed
qed

text \<open>Every pair in the store was there before the call or was proposed in a round of it.\<close>

lemma guess_loop_listed_origin:
  "guess_loop env rw board gs ks st = (st', res) \<Longrightarrow> listed c g (guesses st') \<Longrightarrow>
     listed c g (guesses st) \<or>
     (\<exists>pre round post v b. queries st' = queries st @ pre @ round @ post \<and> consensus_round round g c v b)"
proof (induction ks arbitrary: st)
  case Nil
  then show ?case by simp
next
  case (Cons k rest)
  obtain st1 s where a: "attempt_body env rw board gs k st = (st1, s)"
    by (cases "attempt_body env rw board gs k st")
  have one: "listed c g (guesses st) \<or>
     (\<exists>pre round post v b. queries st2 = queries st @ pre @ round @ post \<and> consensus_round round g c v b)"
    if l: "listed c g (guesses st1)" and ext: "\<exists>post. queries st2 = queries st1 @ post" for st2
  proof -
    from ext obtain post where post: "queries st2 = queries st1 @ post" ..
    from attempt_body_round [OF a] show ?thesis
    proof (elim disjE exE conjE)
      fix e new
      assume "guesses st1 = guesses st"
      with l show ?thesis by simp
    next
      fix g' c' v b
      assume n: "consensus_round (new_queries st st1) g' c' v b"
        "queries st1 = queries st @ new_queries st st1"
        "guesses st1 = record_guess c' g' (guesses st)"
      from l n(3) have "listed c g (guesses st) \<or> (c = c' \<and> g = g')"
        by (simp add: listed_record_guess_cases)
      then show ?thesis
      proof
        assume "listed c g (guesses st)"
        then show ?thesis ..
      next
        assume eq: "c = c' \<and> g = g'"
        have "queries st2 = queries st @ [] @ new_queries st st1 @ post"
          using n(2) post by simp
        moreover have "consensus_round (new_queries st st1) g c v b"
          using n(1) eq by simp
        ultimately have "\<exists>pre round post v b. queries st2 = queries st @ pre @ round @ post
            \<and> consensus_round round g c v b"
          by (intro exI conjI)
        then show ?thesis ..
      qed
    qed
  qed
  show ?case
  proof (cases s)
    case (Raise e)
    with a Cons.prems have "st' = st1" by simp
    with one [of st'] Cons.prems(2) show ?thesis by simp
  next
    case (Return r)
    with a Cons.prems have "st' = st1" by simp
    with one [of st'] Cons.prems(2) show ?thesis by simp
  next
    case Continue
    with a Cons.prems have run: "guess_loop env rw board gs rest st1 = (st', res)" by simp
    from guess_loop_extends [OF run] have ext: "\<exists>post. queries st' = queries st1 @ post" .
    from Cons.IH [OF run Cons.prems(2)] show ?thesis
    proof
      assume "listed c g (guesses st1)"
      then show ?thesis using ext by (rule one)
    next
      assume "\<exists>pre round post v b. queries st' = queries st1 @ pre @ round @ post \<and> consensus_round round g c v b"
      then obtain pre round post v b where n2: "queries st' = queries st1 @ pre @ round @ post"
        "consensus_round round g c v b"
        by (elim exE conjE)
      from attempt_body_round [OF a] obtain new1 where n1: "queries st1 = queries st @ new1"
        by (elim disjE exE conjE)
      have "queries st' = queries st @ (new1 @ pre) @ round @ post"
        using n1 n2(1) by simp
      with n2(2) have "\<exists>pre round post v b. queries st' = queries st @ pre @ round @ post
            \<and> consensus_round round g c v b"
        by (intro exI conjI)
      then show ?thesis ..
    qed
  qed
qed

section \<open>What the prompts say\<close>

lemma parse_guesser_reply_length:
  "parse_guesser_reply s = Inr (g, c) \<Longrightarrow> length g = 4"
  by (auto simp: parse_guesser_reply_def Let_def split: if_splits)

lemma parse_validator_reply_length:
  "parse_validator_reply s = Inr v \<Longrightarrow> length v = 4"
  by (auto simp: parse_validator_reply_def Let_def split: if_splits)

lemma four_words:
  assumes "length xs = 4"
  obtains a b c d where "xs = [a, b, c, d]"
proof -
  from assms obtain a xs1 where 1: "xs = a # xs1" "length xs1 = 3"
    by (cases xs) auto
  then obtain b xs2 where 2: "xs1 = b # xs2" "length xs2 = 2"
    by (cases xs1) auto
  then obtain c xs3 where 3: "xs2 = c # xs3" "length xs3 = 1"
    by (cases xs2) auto
  then obtain d where 4: "xs3 = [d]"
    by (cases xs3) auto
  from 1 2 3 4 have "xs = [a, b, c, d]" by simp
  then show thesis by (rule that)
qed

lemma consensus_prompt_text_words:
  "consensus_prompt_text [w1, w2, w3, w4] [v1, v2, v3, v4] =
     ''Guesser Group: '' @ w1 @ '', '' @ w2 @ '', '' @ w3 @ '', '' @ w4 @ [CHR 0x0A] @
     ''Validator Group: '' @ v1 @ '', '' @ v2 @ '', '' @ v3 @ '', '' @ v4 @ [CHR 0x0A] @
     ''Determine if both groups contain exactly the same words, regardless of order.'' @ [CHR 0x0A] @
     ''Respond with 'Consensus reached' if they are identical, or 'Consensus not reached' otherwise.''"
  by (simp add: consensus_prompt_text_def nl_def)

lemma parse_consensus_reply_iff:
  "parse_consensus_reply s \<longleftrightarrow> contains (lower (strip s)) ''consensus reached''"
  by (simp add: parse_consensus_reply_def Let_def)

lemma join_eq_concat:
  "join sep xs = (if xs = [] then [] else concat (map (\<lambda>w. w @ sep) (butlast xs)) @ last xs)"
  by (induction sep xs rule: join.induct) simp_all

lemma consensus_failure_not_max:
  "ValueError ''ConsensusAgent failed to generate a valid reply.'' \<noteq> max_retries_error"
  by (simp add: max_retries_error_def)

lemma parse_guesser_reply_not_consensus_failure:
  "parse_guesser_reply s = Inl e \<Longrightarrow> e \<noteq> ValueError ''ConsensusAgent failed to generate a valid reply.''"
  by (auto simp: parse_guesser_reply_def Let_def split: if_splits)

lemma parse_validator_reply_not_consensus_failure:
  "parse_validator_reply s = Inl e \<Longrightarrow> e \<noteq> ValueError ''ConsensusAgent failed to generate a valid reply.''"
  by (auto simp: parse_validator_reply_def Let_def split: if_splits)

lemma negotiate_consensus_failed:
  assumes "negotiate env rw board gs st = (st', Inl (ValueError ''ConsensusAgent failed to generate a valid reply.''))"
  shows "\<exists>r1 s1 r2 s2 r3 g c v.
      r1 = generate_reply env (queries st) GuesserAgent
             (guesser_prompt_text (feedback_text env (guesses st) rw board) (join '', '' rw) gs) \<and>
      r2 = generate_reply env
             (queries st @ [(GuesserAgent, guesser_prompt_text (feedback_text env (guesses st) rw board) (join '', '' rw) gs, r1)])
             ValidatorAgent
             (validator_prompt_text (feedback_text env (guesses st) rw board) (join '', '' rw) c) \<and>
      r3 = generate_reply env
             (queries st @ [(GuesserAgent, guesser_prompt_text (feedback_text env (guesses st) rw board) (join '', '' rw) gs, r1),
                            (ValidatorAgent, validator_prompt_text (feedback_text env (guesses st) rw board) (join '', '' rw) c, r2)])
             ConsensusAgent (consensus_prompt_text g v) \<and>
      queries st' = queries st @
         [(GuesserAgent, guesser_prompt_text (feedback_text env (guesses st) rw board) (join '', '' rw) gs, r1),
          (ValidatorAgent, validator_prompt_text (feedback_text env (guesses st) rw board) (join '', '' rw) c, r2),
          (ConsensusAgent, consensus_prompt_text g v, r3)] \<and>
      reply_text r1 = Some s1 \<and> parse_guesser_reply s1 = Inr (g, c) \<and>
      reply_text r2 = Some s2 \<and> parse_validator_reply s2 = Inr v \<and>
      reply_text r3 = None"
  using assms
  unfolding negotiate_def get_agent_reply_eq Let_def
  by (auto split: option.splits sum.splits prod.splits if_splits simp: agent_name_def
        dest!: parse_guesser_reply_not_consensus_failure parse_validator_reply_not_consensus_failure)

lemma guesser_prompt_text_starts:
  "\<exists>rest. guesser_prompt_text fb (join '', '' rw) gs =
     fb @ [CHR 0x0A] @ ''Words: '' @
     (if rw = [] then [] else concat (map (\<lambda>w. w @ '', '') (butlast rw)) @ last rw) @
     [CHR 0x0A] @ rest"
  unfolding join_eq_concat guesser_prompt_text_def nl_def
  by (intro exI) simp

lemma validator_prompt_text_starts:
  "\<exists>rest. validator_prompt_text fb (join '', '' rw) c =
     fb @ [CHR 0x0A] @ ''**Words:** '' @
     (if rw = [] then [] else concat (map (\<lambda>w. w @ '', '') (butlast rw)) @ last rw) @
     [CHR 0x0A] @ ''**Category:** '' @ c @ [CHR 0x0A] @ rest"
  unfolding join_eq_concat validator_prompt_text_def nl_def
  by (intro exI) simp

text \<open>
  C4. \<^verbatim>\<open>guess\<close> always comes back: the loop is a recursion over the 15 attempts, every
  attempt ends as a raise, a return or a step to the next attempt after at most three
  queries, and a whole call issues at most 45 queries in at most 15 attempts.
\<close>

theorem guess_terminates:
  "(\<exists>self' res. guess env remaining_words entire_game_board group_size self = (self', res)
      \<and> queries self' = queries self @ new_queries self self'
      \<and> length (new_queries self self') \<le> 45
      \<and> asked GuesserAgent (new_queries self self') \<le> 15)
   \<and> (\<exists>self1 s. attempt_body env remaining_words entire_game_board group_size attempt self = (self1, s)
      \<and> (s = Continue \<or> (\<exists>e. s = Raise e) \<or> (\<exists>r. s = Return r))
      \<and> queries self1 = queries self @ new_queries self self1
      \<and> length (new_queries self self1) \<le> 3)"
proof -
  obtain self' res where g: "guess env remaining_words entire_game_board group_size self = (self', res)"
    by (cases "guess env remaining_words entire_game_board group_size self")
  then have "guess_loop env remaining_words entire_game_board group_size [1..<max_retries + 1] self = (self', res)"
    by (simp add: guess_def)
  from guess_loop_summary [OF this] obtain new where
    "queries self' = queries self @ new \<and> length new \<le> 3 * length [1..<max_retries + 1]
      \<and> asked GuesserAgent new \<le> length [1..<max_retries + 1]
      \<and> (\<not> isl res \<longleftrightarrow> (\<exists>i \<in> set new. consensus_verdict i = Some True))
      \<and> (isl res \<longrightarrow> (\<exists>msg. res = Inl (ValueError msg)))
      \<and> (rejections new = length [1..<max_retries + 1] \<longrightarrow> res = Inl max_retries_error)" ..
  then have n: "queries self' = queries self @ new" "length new \<le> 45" "asked GuesserAgent new \<le> 15"
    unfolding length_attempts by simp_all
  have nq: "new_queries self self' = new" using n(1) by (rule new_queries_append)
  have call: "\<exists>self' res. guess env remaining_words entire_game_board group_size self = (self', res)
      \<and> queries self' = queries self @ new_queries self self'
      \<and> length (new_queries self self') \<le> 45
      \<and> asked GuesserAgent (new_queries self self') \<le> 15"
    using g n unfolding nq [symmetric] by (intro exI conjI)
  obtain self1 s where a: "attempt_body env remaining_words entire_game_board group_size attempt self = (self1, s)"
    by (cases "attempt_body env remaining_words entire_game_board group_size attempt self")
  from attempt_body_summary [OF a] obtain new1 where
    "queries self1 = queries self @ new1 \<and> length new1 \<le> 3 \<and> asked GuesserAgent new1 = 1
     \<and> ((\<exists>r. s = Return r) \<longleftrightarrow> (\<exists>i \<in> set new1. consensus_verdict i = Some True))
     \<and> (rejections new1 = 1 \<longrightarrow> s = Continue \<or> s = Raise max_retries_error)
     \<and> (s = Continue \<longrightarrow> rejections new1 = 1)
     \<and> rejections new1 \<le> 1" ..
  then have n1: "queries self1 = queries self @ new1" "length new1 \<le> 3" by simp_all
  have nq1: "new_queries self self1 = new1" using n1(1) by (rule new_queries_append)
  have s: "s = Continue \<or> (\<exists>e. s = Raise e) \<or> (\<exists>r. s = Return r)"
    by (cases s) simp_all
  have one: "\<exists>self1 s. attempt_body env remaining_words entire_game_board group_size attempt self = (self1, s)
      \<and> (s = Continue \<or> (\<exists>e. s = Raise e) \<or> (\<exists>r. s = Return r))
      \<and> queries self1 = queries self @ new_queries self self1
      \<and> length (new_queries self self1) \<le> 3"
    using a s n1 unfolding nq1 [symmetric] by (intro exI conjI)
  from call one show ?thesis ..
qed

theorem guess_terminates_witness:
  "length (new_queries new_solver (fst (guess disagreeing demo_words demo_words 4 new_solver))) = 45
   \<and> (\<exists>self' res. guess disagreeing demo_words demo_words 4 new_solver = (self', res)
      \<and> queries self' = queries new_solver @ new_queries new_solver self'
      \<and> length (new_queries new_solver self') \<le> 45
      \<and> asked GuesserAgent (new_queries new_solver self') \<le> 15)"
  using guess_terminates [of disagreeing demo_words demo_words 4 new_solver, THEN conjunct1]
    guess_disagreeing(3) [of new_solver demo_words demo_words 4]
  by (intro conjI)

text \<open>
  C5. When \<^verbatim>\<open>guess\<close> returns, the value is the group and the category parsed from the
  guesser's reply in the last attempt of the call. In that attempt the consensus agent was
  sent the prompt that names the four words of that group after \<^verbatim>\<open>Guesser Group: \<close> and the
  four words parsed from the validator's reply after \<^verbatim>\<open>Validator Group: \<close>, and its reply,
  stripped and in lower case, contains \<^verbatim>\<open>consensus reached\<close>. The group returned is the
  guesser's, whatever the validator's group is.
\<close>

theorem guess_returns_guesser_pair:
  assumes "guess env remaining_words entire_game_board group_size self = (self', Inr (g, c))"
  shows "\<exists>pre p1 r1 s1 p2 r2 s2 v r3 s3 w1 w2 w3 w4 v1 v2 v3 v4.
       new_queries self self' =
         pre @ [(GuesserAgent, p1, r1), (ValidatorAgent, p2, r2),
                (ConsensusAgent, consensus_prompt_text g v, r3)]
       \<and> reply_text r1 = Some s1 \<and> parse_guesser_reply s1 = Inr (g, c)
       \<and> reply_text r2 = Some s2 \<and> parse_validator_reply s2 = Inr v
       \<and> reply_text r3 = Some s3 \<and> parse_consensus_reply s3 = True
       \<and> contains (lower (strip s3)) ''consensus reached''
       \<and> g = [w1, w2, w3, w4] \<and> v = [v1, v2, v3, v4]
       \<and> consensus_prompt_text g v =
           ''Guesser Group: '' @ w1 @ '', '' @ w2 @ '', '' @ w3 @ '', '' @ w4 @ [CHR 0x0A] @
           ''Validator Group: '' @ v1 @ '', '' @ v2 @ '', '' @ v3 @ '', '' @ v4 @ [CHR 0x0A] @
           ''Determine if both groups contain exactly the same words, regardless of order.'' @ [CHR 0x0A] @
           ''Respond with 'Consensus reached' if they are identical, or 'Consensus not reached' otherwise.''"
proof -
  from assms have "guess_loop env remaining_words entire_game_board group_size [1..<max_retries + 1] self
      = (self', Inr (g, c))"
    by (simp add: guess_def)
  from guess_loop_returns [OF this] obtain pre round v where
    q: "queries self' = queries self @ pre @ round" and r: "consensus_round round g c v True"
    by (elim exE conjE)
  have nq: "new_queries self self' = pre @ round"
    using q by (rule new_queries_append)
  from r obtain p1 r1 s1 p2 r2 s2 r3 s3 where f:
    "round = [(GuesserAgent, p1, r1), (ValidatorAgent, p2, r2),
               (ConsensusAgent, consensus_prompt_text g v, r3)]"
    "reply_text r1 = Some s1" "parse_guesser_reply s1 = Inr (g, c)"
    "reply_text r2 = Some s2" "parse_validator_reply s2 = Inr v"
    "reply_text r3 = Some s3" "parse_consensus_reply s3 = True"
    unfolding consensus_round_def by (elim exE conjE)
  from f(3) have "length g = 4" by (rule parse_guesser_reply_length)
  then obtain w1 w2 w3 w4 where g: "g = [w1, w2, w3, w4]" by (rule four_words)
  from f(5) have "length v = 4" by (rule parse_validator_reply_length)
  then obtain v1 v2 v3 v4 where v: "v = [v1, v2, v3, v4]" by (rule four_words)
  have c: "contains (lower (strip s3)) ''consensus reached''"
    using f(7) by (simp add: parse_consensus_reply_iff)
  have n: "new_queries self self' =
         pre @ [(GuesserAgent, p1, r1), (ValidatorAgent, p2, r2),
                (ConsensusAgent, consensus_prompt_text g v, r3)]"
    using nq f(1) by simp
  have t: "consensus_prompt_text g v =
           ''Guesser Group: '' @ w1 @ '', '' @ w2 @ '', '' @ w3 @ '', '' @ w4 @ [CHR 0x0A] @
           ''Validator Group: '' @ v1 @ '', '' @ v2 @ '', '' @ v3 @ '', '' @ v4 @ [CHR 0x0A] @
           ''Determine if both groups contain exactly the same words, regardless of order.'' @ [CHR 0x0A] @
           ''Respond with 'Consensus reached' if they are identical, or 'Consensus not reached' otherwise.''"
    unfolding g v by (rule consensus_prompt_text_words)
  from n f(2,3,4,5,6,7) c g v t show ?thesis
    by (intro exI conjI)
qed

theorem guess_returns_guesser_pair_witness:
  "guess agreeing demo_words demo_words 4 new_solver
     = (fst (guess agreeing demo_words demo_words 4 new_solver), Inr (fish, ''Fish''))
   \<and> parse_validator_reply ''Group: Cod, Bass, Trout, Salmon'' = Inr [''Cod'', ''Bass'', ''Trout'', ''Salmon'']
   \<and> [''Cod'', ''Bass'', ''Trout'', ''Salmon''] \<noteq> fish
   \<and> (\<exists>pre p1 r1 s1 p2 r2 s2 v r3 s3 w1 w2 w3 w4 v1 v2 v3 v4.
       new_queries new_solver (fst (guess agreeing demo_words demo_words 4 new_solver)) =
         pre @ [(GuesserAgent, p1, r1), (ValidatorAgent, p2, r2),
                (ConsensusAgent, consensus_prompt_text fish v, r3)]
       \<and> reply_text r1 = Some s1 \<and> parse_guesser_reply s1 = Inr (fish, ''Fish'')
       \<and> reply_text r2 = Some s2 \<and> parse_validator_reply s2 = Inr v
       \<and> reply_text r3 = Some s3 \<and> parse_consensus_reply s3 = True
       \<and> contains (lower (strip s3)) ''consensus reached''
       \<and> fish = [w1, w2, w3, w4] \<and> v = [v1, v2, v3, v4]
       \<and> consensus_prompt_text fish v =
           ''Guesser Group: '' @ w1 @ '', '' @ w2 @ '', '' @ w3 @ '', '' @ w4 @ [CHR 0x0A] @
           ''Validator Group: '' @ v1 @ '', '' @ v2 @ '', '' @ v3 @ '', '' @ v4 @ [CHR 0x0A] @
           ''Determine if both groups contain exactly the same words, regardless of order.'' @ [CHR 0x0A] @
           ''Respond with 'Consensus reached' if they are identical, or 'Consensus not reached' otherwise.'')"
proof -
  have run: "guess agreeing demo_words demo_words 4 new_solver
     = (fst (guess agreeing demo_words demo_words 4 new_solver), Inr (fish, ''Fish''))"
    by (simp add: guess_agreeing)
  have ne: "[''Cod'', ''Bass'', ''Trout'', ''Salmon''] \<noteq> fish"
    by (simp add: fish_def)
  from run parse_demo_validator(1) ne guess_returns_guesser_pair [OF run]
  show ?thesis by (intro conjI)
qed

text \<open>
  C6. An attempt in which neither the guesser's step nor the validator's step raises (it ends
  in a return, in the step to the next attempt, in the error for the exhausted retries, or
  in the error for a consensus reply that is missing or empty) has issued exactly three
  queries, in this order. The guesser's prompt is the feedback, a line break, \<^verbatim>\<open>Words: \<close> and
  the remaining words separated by \<^verbatim>\<open>, \<close>; the validator's is the feedback, a line break,
  \<^verbatim>\<open>**Words:** \<close> with the remaining words, and \<^verbatim>\<open>**Category:** \<close> with the category parsed
  from the guesser's reply; the consensus agent's names the four words of the guesser's group
  and the four of the validator's. Each reply is the one the agent gives after the queries
  before it.
\<close>

theorem attempt_three_queries:
  assumes "attempt_body env remaining_words entire_game_board group_size attempt self = (self', s)"
    and "s = Continue \<or> (\<exists>r. s = Return r) \<or> s = Raise max_retries_error
         \<or> s = Raise (ValueError ''ConsensusAgent failed to generate a valid reply.'')"
  shows "\<exists>r1 s1 r2 s2 r3 g c v w1 w2 w3 w4 v1 v2 v3 v4 rest1 rest2.
      r1 = generate_reply env (queries self) GuesserAgent
             (guesser_prompt_text (feedback_text env (guesses self) remaining_words entire_game_board)
                (join '', '' remaining_words) group_size) \<and>
      r2 = generate_reply env
             (queries self @ [(GuesserAgent, guesser_prompt_text (feedback_text env (guesses self) remaining_words entire_game_board)
                (join '', '' remaining_words) group_size, r1)])
             ValidatorAgent
             (validator_prompt_text (feedback_text env (guesses self) remaining_words entire_game_board)
                (join '', '' remaining_words) c) \<and>
      r3 = generate_reply env
             (queries self @ [(GuesserAgent, guesser_prompt_text (feedback_text env (guesses self) remaining_words entire_game_board)
                (join '', '' remaining_words) group_size, r1),
                 (ValidatorAgent, validator_prompt_text (feedback_text env (guesses self) remaining_words entire_game_board)
                (join '', '' remaining_words) c, r2)])
             ConsensusAgent (consensus_prompt_text g v) \<and>
      new_queries self self' =
         [(GuesserAgent, guesser_prompt_text (feedback_text env (guesses self) remaining_words entire_game_board)
                (join '', '' remaining_words) group_size, r1),
          (ValidatorAgent, validator_prompt_text (feedback_text env (guesses self) remaining_words entire_game_board)
                (join '', '' remaining_words) c, r2),
          (ConsensusAgent, consensus_prompt_text g v, r3)] \<and>
      reply_text r1 = Some s1 \<and>
      parse_guesser_reply s1 = Inr (g, c) \<and>
      reply_text r2 = Some s2 \<and>
      parse_validator_reply s2 = Inr v \<and>
      (reply_text r3 = None) = (s = Raise (ValueError ''ConsensusAgent failed to generate a valid reply.'')) \<and>
      g = [w1, w2, w3, w4] \<and>
      v = [v1, v2, v3, v4] \<and>
      guesser_prompt_text (feedback_text env (guesses self) remaining_words entire_game_board)
                (join '', '' remaining_words) group_size =
           feedback_text env (guesses self) remaining_words entire_game_board @ [CHR 0x0A] @ ''Words: '' @
           (if remaining_words = [] then []
            else concat (map (\<lambda>w. w @ '', '') (butlast remaining_words)) @ last remaining_words) @
           [CHR 0x0A] @ rest1 \<and>
      validator_prompt_text (feedback_text env (guesses self) remaining_words entire_game_board)
                (join '', '' remaining_words) c =
           feedback_text env (guesses self) remaining_words entire_game_board @ [CHR 0x0A] @ ''**Words:** '' @
           (if remaining_words = [] then []
            else concat (map (\<lambda>w. w @ '', '') (butlast remaining_words)) @ last remaining_words) @
           [CHR 0x0A] @ ''**Category:** '' @ c @ [CHR 0x0A] @ rest2 \<and>
      consensus_prompt_text g v =
           ''Guesser Group: '' @ w1 @ '', '' @ w2 @ '', '' @ w3 @ '', '' @ w4 @ [CHR 0x0A] @
           ''Validator Group: '' @ v1 @ '', '' @ v2 @ '', '' @ v3 @ '', '' @ v4 @ [CHR 0x0A] @
           ''Determine if both groups contain exactly the same words, regardless of order.'' @ [CHR 0x0A] @
           ''Respond with 'Consensus reached' if they are identical, or 'Consensus not reached' otherwise.''"
proof (cases "negotiate env remaining_words entire_game_board group_size self")
  case (Pair st3 res)
  show ?thesis
  proof (cases res)
    case (Inl e)
    with Pair assms(1) have s: "s = Raise e" and st: "self' = st3"
      by (simp_all add: attempt_body_def)
    from negotiate_failed [of env remaining_words entire_game_board group_size self st3 e] Pair Inl
    have "e \<noteq> max_retries_error" by simp
    with s assms(2) have e: "e = ValueError ''ConsensusAgent failed to generate a valid reply.''" by simp
    have nqs: "new_queries self self' = new_queries self st3"
      using st by simp
    from Pair Inl e have "negotiate env remaining_words entire_game_board group_size self
        = (st3, Inl (ValueError ''ConsensusAgent failed to generate a valid reply.''))"
      by simp
    from negotiate_consensus_failed [OF this] obtain r1 s1 r2 s2 r3 g c v where f:
      "r1 = generate_reply env (queries self) GuesserAgent
             (guesser_prompt_text (feedback_text env (guesses self) remaining_words entire_game_board)
                (join '', '' remaining_words) group_size)"
      "r2 = generate_reply env
             (queries self @ [(GuesserAgent, guesser_prompt_text (feedback_text env (guesses self) remaining_words entire_game_board)
                (join '', '' remaining_words) group_size, r1)])
             ValidatorAgent
             (validator_prompt_text (feedback_text env (guesses self) remaining_words entire_game_board)
                (join '', '' remaining_words) c)"
      "r3 = generate_reply env
             (queries self @ [(GuesserAgent, guesser_prompt_text (feedback_text env (guesses self) remaining_words entire_game_board)
                (join '', '' remaining_words) group_size, r1),
                 (ValidatorAgent, validator_prompt_text (feedback_text env (guesses self) remaining_words entire_game_board)
                (join '', '' remaining_words) c, r2)])
             ConsensusAgent (consensus_prompt_text g v)"
      "queries st3 = queries self @
         [(GuesserAgent, guesser_prompt_text (feedback_text env (guesses self) remaining_words entire_game_board)
                (join '', '' remaining_words) group_size, r1),
          (ValidatorAgent, validator_prompt_text (feedback_text env (guesses self) remaining_words entire_game_board)
                (join '', '' remaining_words) c, r2),
          (ConsensusAgent, consensus_prompt_text g v, r3)]"
      "reply_text r1 = Some s1" "parse_guesser_reply s1 = Inr (g, c)"
      "reply_text r2 = Some s2" "parse_validator_reply s2 = Inr v"
      "reply_text r3 = None"
      by (elim exE conjE)
    have t3: "(reply_text r3 = None) = (s = Raise (ValueError ''ConsensusAgent failed to generate a valid reply.''))"
      using f(9) s e by simp
    from f(6) have "length g = 4" by (rule parse_guesser_reply_length)
    then obtain w1 w2 w3 w4 where g: "g = [w1, w2, w3, w4]" by (rule four_words)
    from f(8) have "length v = 4" by (rule parse_validator_reply_length)
    then obtain v1 v2 v3 v4 where v: "v = [v1, v2, v3, v4]" by (rule four_words)
    from guesser_prompt_text_starts [of "feedback_text env (guesses self) remaining_words entire_game_board" remaining_words group_size]
    obtain rest1 where gp: "guesser_prompt_text (feedback_text env (guesses self) remaining_words entire_game_board)
                (join '', '' remaining_words) group_size =
           feedback_text env (guesses self) remaining_words entire_game_board @ [CHR 0x0A] @ ''Words: '' @
           (if remaining_words = [] then []
            else concat (map (\<lambda>w. w @ '', '') (butlast remaining_words)) @ last remaining_words) @
           [CHR 0x0A] @ rest1" ..
    from validator_prompt_text_starts [of "feedback_text env (guesses self) remaining_words entire_game_board" remaining_words c]
    obtain rest2 where vp: "validator_prompt_text (feedback_text env (guesses self) remaining_words entire_game_board)
                (join '', '' remaining_words) c =
           feedback_text env (guesses self) remaining_words entire_game_board @ [CHR 0x0A] @ ''**Words:** '' @
           (if remaining_words = [] then []
            else concat (map (\<lambda>w. w @ '', '') (butlast remaining_words)) @ last remaining_words) @
           [CHR 0x0A] @ ''**Category:** '' @ c @ [CHR 0x0A] @ rest2" ..
    have cp: "consensus_prompt_text g v =
           ''Guesser Group: '' @ w1 @ '', '' @ w2 @ '', '' @ w3 @ '', '' @ w4 @ [CHR 0x0A] @
           ''Validator Group: '' @ v1 @ '', '' @ v2 @ '', '' @ v3 @ '', '' @ v4 @ [CHR 0x0A] @
           ''Determine if both groups contain exactly the same words, regardless of order.'' @ [CHR 0x0A] @
           ''Respond with 'Consensus reached' if they are identical, or 'Consensus not reached' otherwise.''"
      unfolding g v by (rule consensus_prompt_text_words)
    have nq: "new_queries self self' =
         [(GuesserAgent, guesser_prompt_text (feedback_text env (guesses self) remaining_words entire_game_board)
                (join '', '' remaining_words) group_size, r1),
          (ValidatorAgent, validator_prompt_text (feedback_text env (guesses self) remaining_words entire_game_board)
                (join '', '' remaining_words) c, r2),
          (ConsensusAgent, consensus_prompt_text g v, r3)]"
      unfolding nqs using f(4) by (rule new_queries_append)
    from f(1) f(2) f(3) nq f(5) f(6) f(7) f(8) t3 g v gp vp cp show ?thesis
      by (intro exI conjI)
  next
    case (Inr x)
    then obtain g c v b where x: "res = Inr (g, c, v, b)"
      by (cases x) auto
    from Pair x assms(1) have "queries self' = queries st3"
      and s: "s = (if b then Return (g, c) else if attempt = max_retries then Raise max_retries_error else Continue)"
      by (auto simp: attempt_body_def Let_def split: if_splits)
    then have nqs: "new_queries self self' = new_queries self st3"
      by (simp add: new_queries_def)
    from Pair x have "negotiate env remaining_words entire_game_board group_size self = (st3, Inr (g, c, v, b))"
      by simp
    from negotiate_completed [OF this] obtain r1 s1 r2 s2 r3 s3 where f:
      "r1 = generate_reply env (queries self) GuesserAgent
             (guesser_prompt_text (feedback_text env (guesses self) remaining_words entire_game_board)
                (join '', '' remaining_words) group_size)"
      "r2 = generate_reply env
             (queries self @ [(GuesserAgent, guesser_prompt_text (feedback_text env (guesses self) remaining_words entire_game_board)
                (join '', '' remaining_words) group_size, r1)])
             ValidatorAgent
             (validator_prompt_text (feedback_text env (guesses self) remaining_words entire_game_board)
                (join '', '' remaining_words) c)"
      "r3 = generate_reply env
             (queries self @ [(GuesserAgent, guesser_prompt_text (feedback_text env (guesses self) remaining_words entire_game_board)
                (join '', '' remaining_words) group_size, r1),
                 (ValidatorAgent, validator_prompt_text (feedback_text env (guesses self) remaining_words entire_game_board)
                (join '', '' remaining_words) c, r2)])
             ConsensusAgent (consensus_prompt_text g v)"
      "queries st3 = queries self @
         [(GuesserAgent, guesser_prompt_text (feedback_text env (guesses self) remaining_words entire_game_board)
                (join '', '' remaining_words) group_size, r1),
          (ValidatorAgent, validator_prompt_text (feedback_text env (guesses self) remaining_words entire_game_board)
                (join '', '' remaining_words) c, r2),
          (ConsensusAgent, consensus_prompt_text g v, r3)]"
      "reply_text r1 = Some s1" "parse_guesser_reply s1 = Inr (g, c)"
      "reply_text r2 = Some s2" "parse_validator_reply s2 = Inr v"
      "reply_text r3 = Some s3"
      by (elim exE conjE)
    have "s \<noteq> Raise (ValueError ''ConsensusAgent failed to generate a valid reply.'')"
      unfolding s using consensus_failure_not_max by simp
    with f(9) have t3: "(reply_text r3 = None) = (s = Raise (ValueError ''ConsensusAgent failed to generate a valid reply.''))"
      by simp
    from f(6) have "length g = 4" by (rule parse_guesser_reply_length)
    then obtain w1 w2 w3 w4 where g: "g = [w1, w2, w3, w4]" by (rule four_words)
    from f(8) have "length v = 4" by (rule parse_validator_reply_length)
    then obtain v1 v2 v3 v4 where v: "v = [v1, v2, v3, v4]" by (rule four_words)
    from guesser_prompt_text_starts [of "feedback_text env (guesses self) remaining_words entire_game_board" remaining_words group_size]
    obtain rest1 where gp: "guesser_prompt_text (feedback_text env (guesses self) remaining_words entire_game_board)
                (join '', '' remaining_words) group_size =
           feedback_text env (guesses self) remaining_words entire_game_board @ [CHR 0x0A] @ ''Words: '' @
           (if remaining_words = [] then []
            else concat (map (\<lambda>w. w @ '', '') (butlast remaining_words)) @ last remaining_words) @
           [CHR 0x0A] @ rest1" ..
    from validator_prompt_text_starts [of "feedback_text env (guesses self) remaining_words entire_game_board" remaining_words c]
    obtain rest2 where vp: "validator_prompt_text (feedback_text env (guesses self) remaining_words entire_game_board)
                (join '', '' remaining_words) c =
           feedback_text env (guesses self) remaining_words entire_game_board @ [CHR 0x0A] @ ''**Words:** '' @
           (if remaining_words = [] then []
            else concat (map (\<lambda>w. w @ '', '') (butlast remaining_words)) @ last remaining_words) @
           [CHR 0x0A] @ ''**Category:** '' @ c @ [CHR 0x0A] @ rest2" ..
    have cp: "consensus_prompt_text g v =
           ''Guesser Group: '' @ w1 @ '', '' @ w2 @ '', '' @ w3 @ '', '' @ w4 @ [CHR 0x0A] @
           ''Validator Group: '' @ v1 @ '', '' @ v2 @ '', '' @ v3 @ '', '' @ v4 @ [CHR 0x0A] @
           ''Determine if both groups contain exactly the same words, regardless of order.'' @ [CHR 0x0A] @
           ''Respond with 'Consensus reached' if they are identical, or 'Consensus not reached' otherwise.''"
      unfolding g v by (rule consensus_prompt_text_words)
    have nq: "new_queries self self' =
         [(GuesserAgent, guesser_prompt_text (feedback_text env (guesses self) remaining_words entire_game_board)
                (join '', '' remaining_words) group_size, r1),
          (ValidatorAgent, validator_prompt_text (feedback_text env (guesses self) remaining_words entire_game_board)
                (join '', '' remaining_words) c, r2),
          (ConsensusAgent, consensus_prompt_text g v, r3)]"
      unfolding nqs using f(4) by (rule new_queries_append)
    from f(1) f(2) f(3) nq f(5) f(6) f(7) f(8) t3 g v gp vp cp show ?thesis
      by (intro exI conjI)
  qed
qed

theorem attempt_three_queries_witness:
  "attempt_body disagreeing demo_words demo_words 4 1 new_solver
     = (fst (attempt_body disagreeing demo_words demo_words 4 1 new_solver), Continue)
   \<and> map fst (new_queries new_solver (fst (attempt_body disagreeing demo_words demo_words 4 1 new_solver)))
       = [GuesserAgent, ValidatorAgent, ConsensusAgent]
   \<and> (\<exists>r1 s1 r2 s2 r3 g c v w1 w2 w3 w4 v1 v2 v3 v4 rest1 rest2.
      r1 = generate_reply disagreeing (queries new_solver) GuesserAgent
             (guesser_prompt_text (feedback_text disagreeing (guesses new_solver) demo_words demo_words)
                (join '', '' demo_words) 4) \<and>
      r2 = generate_reply disagreeing
             (queries new_solver @ [(GuesserAgent, guesser_prompt_text (feedback_text disagreeing (guesses new_solver) demo_words demo_words)
                (join '', '' demo_words) 4, r1)])
             ValidatorAgent
             (validator_prompt_text (feedback_text disagreeing (guesses new_solver) demo_words demo_words)
                (join '', '' demo_words) c) \<and>
      r3 = generate_reply disagreeing
             (queries new_solver @ [(GuesserAgent, guesser_prompt_text (feedback_text disagreeing (guesses new_solver) demo_words demo_words)
                (join '', '' demo_words) 4, r1),
                 (ValidatorAgent, validator_prompt_text (feedback_text disagreeing (guesses new_solver) demo_words demo_words)
                (join '', '' demo_words) c, r2)])
             ConsensusAgent (consensus_prompt_text g v) \<and>
      new_queries new_solver (fst (attempt_body disagreeing demo_words demo_words 4 1 new_solver)) =
         [(GuesserAgent, guesser_prompt_text (feedback_text disagreeing (guesses new_solver) demo_words demo_words)
                (join '', '' demo_words) 4, r1),
          (ValidatorAgent, validator_prompt_text (feedback_text disagreeing (guesses new_solver) demo_words demo_words)
                (join '', '' demo_words) c, r2),
          (ConsensusAgent, consensus_prompt_text g v, r3)] \<and>
      reply_text r1 = Some s1 \<and>
      parse_guesser_reply s1 = Inr (g, c) \<and>
      reply_text r2 = Some s2 \<and>
      parse_validator_reply s2 = Inr v \<and>
      (reply_text r3 = None) = (Continue = Raise (ValueError ''ConsensusAgent failed to generate a valid reply.'')) \<and>
      g = [w1, w2, w3, w4] \<and>
      v = [v1, v2, v3, v4] \<and>
      guesser_prompt_text (feedback_text disagreeing (guesses new_solver) demo_words demo_words)
                (join '', '' demo_words) 4 =
           feedback_text disagreeing (guesses new_solver) demo_words demo_words @ [CHR 0x0A] @ ''Words: '' @
           (if demo_words = [] then []
            else concat (map (\<lambda>w. w @ '', '') (butlast demo_words)) @ last demo_words) @
           [CHR 0x0A] @ rest1 \<and>
      validator_prompt_text (feedback_text disagreeing (guesses new_solver) demo_words demo_words)
                (join '', '' demo_words) c =
           feedback_text disagreeing (guesses new_solver) demo_words demo_words @ [CHR 0x0A] @ ''**Words:** '' @
           (if demo_words = [] then []
            else concat (map (\<lambda>w. w @ '', '') (butlast demo_words)) @ last demo_words) @
           [CHR 0x0A] @ ''**Category:** '' @ c @ [CHR 0x0A] @ rest2 \<and>
      consensus_prompt_text g v =
           ''Guesser Group: '' @ w1 @ '', '' @ w2 @ '', '' @ w3 @ '', '' @ w4 @ [CHR 0x0A] @
           ''Validator Group: '' @ v1 @ '', '' @ v2 @ '', '' @ v3 @ '', '' @ v4 @ [CHR 0x0A] @
           ''Determine if both groups contain exactly the same words, regardless of order.'' @ [CHR 0x0A] @
           ''Respond with 'Consensus reached' if they are identical, or 'Consensus not reached' otherwise.'')
   \<and> attempt_body speechless demo_words demo_words 4 1 new_solver
     = (fst (attempt_body speechless demo_words demo_words 4 1 new_solver),
        Raise (ValueError ''ConsensusAgent failed to generate a valid reply.''))
   \<and> map fst (new_queries new_solver (fst (attempt_body speechless demo_words demo_words 4 1 new_solver)))
       = [GuesserAgent, ValidatorAgent, ConsensusAgent]
   \<and> (\<exists>r1 s1 r2 s2 r3 g c v w1 w2 w3 w4 v1 v2 v3 v4 rest1 rest2.
      r1 = generate_reply speechless (queries new_solver) GuesserAgent
             (guesser_prompt_text (feedback_text speechless (guesses new_solver) demo_words demo_words)
                (join '', '' demo_words) 4) \<and>
      r2 = generate_reply speechless
             (queries new_solver @ [(GuesserAgent, guesser_prompt_text (feedback_text speechless (guesses new_solver) demo_words demo_words)
                (join '', '' demo_words) 4, r1)])
             ValidatorAgent
             (validator_prompt_text (feedback_text speechless (guesses new_solver) demo_words demo_words)
                (join '', '' demo_words) c) \<and>
      r3 = generate_reply speechless
             (queries new_solver @ [(GuesserAgent, guesser_prompt_text (feedback_text speechless (guesses new_solver) demo_words demo_words)
                (join '', '' demo_words) 4, r1),
                 (ValidatorAgent, validator_prompt_text (feedback_text speechless (guesses new_solver) demo_words demo_words)
                (join '', '' demo_words) c, r2)])
             ConsensusAgent (consensus_prompt_text g v) \<and>
      new_queries new_solver (fst (attempt_body speechless demo_words demo_words 4 1 new_solver)) =
         [(GuesserAgent, guesser_prompt_text (feedback_text speechless (guesses new_solver) demo_words demo_words)
                (join '', '' demo_words) 4, r1),
          (ValidatorAgent, validator_prompt_text (feedback_text speechless (guesses new_solver) demo_words demo_words)
                (join '', '' demo_words) c, r2),
          (ConsensusAgent, consensus_prompt_text g v, r3)] \<and>
      reply_text r1 = Some s1 \<and>
      parse_guesser_reply s1 = Inr (g, c) \<and>
      reply_text r2 = Some s2 \<and>
      parse_validator_reply s2 = Inr v \<and>
      (reply_text r3 = None) = (Raise (ValueError ''ConsensusAgent failed to generate a valid reply.'') = Raise (ValueError ''ConsensusAgent failed to generate a valid reply.'')) \<and>
      g = [w1, w2, w3, w4] \<and>
      v = [v1, v2, v3, v4] \<and>
      guesser_prompt_text (feedback_text speechless (guesses new_solver) demo_words demo_words)
                (join '', '' demo_words) 4 =
           feedback_text speechless (guesses new_solver) demo_words demo_words @ [CHR 0x0A] @ ''Words: '' @
           (if demo_words = [] then []
            else concat (map (\<lambda>w. w @ '', '') (butlast demo_words)) @ last demo_words) @
           [CHR 0x0A] @ rest1 \<and>
      validator_prompt_text (feedback_text speechless (guesses new_solver) demo_words demo_words)
                (join '', '' demo_words) c =
           feedback_text speechless (guesses new_solver) demo_words demo_words @ [CHR 0x0A] @ ''**Words:** '' @
           (if demo_words = [] then []
            else concat (map (\<lambda>w. w @ '', '') (butlast demo_words)) @ last demo_words) @
           [CHR 0x0A] @ ''**Category:** '' @ c @ [CHR 0x0A] @ rest2 \<and>
      consensus_prompt_text g v =
           ''Guesser Group: '' @ w1 @ '', '' @ w2 @ '', '' @ w3 @ '', '' @ w4 @ [CHR 0x0A] @
           ''Validator Group: '' @ v1 @ '', '' @ v2 @ '', '' @ v3 @ '', '' @ v4 @ [CHR 0x0A] @
           ''Determine if both groups contain exactly the same words, regardless of order.'' @ [CHR 0x0A] @
           ''Respond with 'Consensus reached' if they are identical, or 'Consensus not reached' otherwise.'')"
proof -
  let ?d = "fst (attempt_body disagreeing demo_words demo_words 4 1 new_solver)"
  let ?m = "fst (attempt_body speechless demo_words demo_words 4 1 new_solver)"
  have rd: "attempt_body disagreeing demo_words demo_words 4 1 new_solver = (?d, Continue)"
    by (simp add: attempt_disagreeing max_retries_def)
  have ad: "map fst (new_queries new_solver ?d) = [GuesserAgent, ValidatorAgent, ConsensusAgent]"
    by (simp add: attempt_disagreeing new_queries_def new_solver_def)
  have hd: "Continue = Continue \<or> (\<exists>r. Continue = Return r) \<or> Continue = Raise max_retries_error
         \<or> Continue = Raise (ValueError ''ConsensusAgent failed to generate a valid reply.'')"
    by simp
  note td = attempt_three_queries [OF rd hd]
  have rm: "attempt_body speechless demo_words demo_words 4 1 new_solver
      = (?m, Raise (ValueError ''ConsensusAgent failed to generate a valid reply.''))"
    by (simp add: attempt_speechless)
  have am: "map fst (new_queries new_solver ?m) = [GuesserAgent, ValidatorAgent, ConsensusAgent]"
    by (simp add: attempt_speechless new_queries_def new_solver_def)
  have hm: "Raise (ValueError ''ConsensusAgent failed to generate a valid reply.'') = Continue
         \<or> (\<exists>r. Raise (ValueError ''ConsensusAgent failed to generate a valid reply.'') = Return r)
         \<or> Raise (ValueError ''ConsensusAgent failed to generate a valid reply.'') = Raise max_retries_error
         \<or> Raise (ValueError ''ConsensusAgent failed to generate a valid reply.'') = Raise (ValueError ''ConsensusAgent failed to generate a valid reply.'')"
    by simp
  note tm = attempt_three_queries [OF rm hm]
  from rd ad td rm am tm show ?thesis by (intro conjI)
qed

lemma guess_loop_failing_attempt:
  "guess_loop env rw board gs ks st = (st', Inl e) \<Longrightarrow> e \<noteq> max_retries_error \<Longrightarrow>
     \<exists>pre k post. ks = pre @ k # post
       \<and> attempt_body env rw board gs k (attempts_through env rw board gs st pre) = (st', Raise e)
       \<and> guesses st' = guesses (attempts_through env rw board gs st pre)"
proof (induction ks arbitrary: st)
  case Nil
  then show ?case by simp
next
  case (Cons k rest)
  obtain st1 s where a: "attempt_body env rw board gs k st = (st1, s)"
    by (cases "attempt_body env rw board gs k st")
  show ?case
  proof (cases s)
    case (Raise e')
    with a Cons.prems have r: "st' = st1" "e' = e" by simp_all
    from attempt_body_round [OF a] Raise r(2) Cons.prems(2) have "guesses st1 = guesses st"
      by (elim disjE exE conjE) (simp_all split: if_splits)
    then have "k # rest = [] @ k # rest
       \<and> attempt_body env rw board gs k (attempts_through env rw board gs st []) = (st', Raise e)
       \<and> guesses st' = guesses (attempts_through env rw board gs st [])"
      using a Raise r by simp
    then show ?thesis by (intro exI)
  next
    case (Return r)
    with a Cons.prems show ?thesis by simp
  next
    case Continue
    with a Cons.prems have "guess_loop env rw board gs rest st1 = (st', Inl e)" by simp
    from Cons.IH [OF this Cons.prems(2)] obtain pre k' post where n:
      "rest = pre @ k' # post"
      "attempt_body env rw board gs k' (attempts_through env rw board gs st1 pre) = (st', Raise e)"
      "guesses st' = guesses (attempts_through env rw board gs st1 pre)"
      by (elim exE conjE)
    have t: "attempts_through env rw board gs st (k # pre) = attempts_through env rw board gs st1 pre"
      using a by simp
    have "k # rest = (k # pre) @ k' # post
       \<and> attempt_body env rw board gs k' (attempts_through env rw board gs st (k # pre)) = (st', Raise e)
       \<and> guesses st' = guesses (attempts_through env rw board gs st (k # pre))"
      unfolding t using n by simp
    then show ?thesis by (intro exI)
  qed
qed

text \<open>
  C9. When the guesser's reply, or after it the validator's, does not parse, the attempt
  raises that ValueError with the feedback store as the attempt found it, and the loop hands
  the error on without running another attempt. Over a whole call: if \<^verbatim>\<open>guess\<close> raises
  anything but the error for the exhausted retries, the error was raised by one attempt of
  the call, and the store is the one that attempt started with.
\<close>

theorem parse_failure_leaves_store:
  "(get_agent_reply env before GuesserAgent
        (guesser_prompt_text (feedback_text env (guesses before) remaining_words entire_game_board)
           (join '', '' remaining_words) group_size) = (self1, Inr s1) \<longrightarrow>
    parse_guesser_reply s1 = Inl e \<longrightarrow>
      attempt_body env remaining_words entire_game_board group_size attempt before = (self1, Raise e)
      \<and> guess_loop env remaining_words entire_game_board group_size (attempt # rest) before = (self1, Inl e)
      \<and> guesses self1 = guesses before \<and> e \<noteq> max_retries_error)
   \<and> (get_agent_reply env before GuesserAgent
        (guesser_prompt_text (feedback_text env (guesses before) remaining_words entire_game_board)
           (join '', '' remaining_words) group_size) = (self1, Inr s1) \<longrightarrow>
    parse_guesser_reply s1 = Inr (g, c) \<longrightarrow>
    get_agent_reply env self1 ValidatorAgent
        (validator_prompt_text (feedback_text env (guesses before) remaining_words entire_game_board)
           (join '', '' remaining_words) c) = (self2, Inr s2) \<longrightarrow>
    parse_validator_reply s2 = Inl e \<longrightarrow>
      attempt_body env remaining_words entire_game_board group_size attempt before = (self2, Raise e)
      \<and> guess_loop env remaining_words entire_game_board group_size (attempt # rest) before = (self2, Inl e)
      \<and> guesses self2 = guesses before \<and> e \<noteq> max_retries_error)
   \<and> (guess env remaining_words entire_game_board group_size self = (self', Inl e) \<longrightarrow>
      e \<noteq> max_retries_error \<longrightarrow>
        (\<exists>pre k post. [1..<max_retries + 1] = pre @ k # post
           \<and> attempt_body env remaining_words entire_game_board group_size k
                (attempts_through env remaining_words entire_game_board group_size self pre) = (self', Raise e)
           \<and> guesses self' = guesses (attempts_through env remaining_words entire_game_board group_size self pre)))"
proof (intro conjI impI)
  let ?gp = "guesser_prompt_text (feedback_text env (guesses before) remaining_words entire_game_board)
           (join '', '' remaining_words) group_size"
  {
    assume g: "get_agent_reply env before GuesserAgent ?gp = (self1, Inr s1)"
      and p: "parse_guesser_reply s1 = Inl e"
    have n: "negotiate env remaining_words entire_game_board group_size before = (self1, Inl e)"
      using g p by (simp add: negotiate_def Let_def)
    then show a: "attempt_body env remaining_words entire_game_board group_size attempt before = (self1, Raise e)"
      by (simp add: attempt_body_def)
    then show "guess_loop env remaining_words entire_game_board group_size (attempt # rest) before = (self1, Inl e)"
      by simp
    from negotiate_failed [OF n] show "guesses self1 = guesses before" "e \<noteq> max_retries_error"
      by simp_all
  }
  {
    assume g: "get_agent_reply env before GuesserAgent ?gp = (self1, Inr s1)"
      and p: "parse_guesser_reply s1 = Inr (g, c)"
      and v: "get_agent_reply env self1 ValidatorAgent
        (validator_prompt_text (feedback_text env (guesses before) remaining_words entire_game_board)
           (join '', '' remaining_words) c) = (self2, Inr s2)"
      and q: "parse_validator_reply s2 = Inl e"
    have n: "negotiate env remaining_words entire_game_board group_size before = (self2, Inl e)"
      using g p v q by (simp add: negotiate_def Let_def)
    then show a: "attempt_body env remaining_words entire_game_board group_size attempt before = (self2, Raise e)"
      by (simp add: attempt_body_def)
    then show "guess_loop env remaining_words entire_game_board group_size (attempt # rest) before = (self2, Inl e)"
      by simp
    from negotiate_failed [OF n] show "guesses self2 = guesses before" "e \<noteq> max_retries_error"
      by simp_all
  }
  {
    assume "guess env remaining_words entire_game_board group_size self = (self', Inl e)"
      and ne: "e \<noteq> max_retries_error"
    then have "guess_loop env remaining_words entire_game_board group_size [1..<max_retries + 1] self = (self', Inl e)"
      by (simp add: guess_def)
    from guess_loop_failing_attempt [OF this ne]
    show "\<exists>pre k post. [1..<max_retries + 1] = pre @ k # post
           \<and> attempt_body env remaining_words entire_game_board group_size k
                (attempts_through env remaining_words entire_game_board group_size self pre) = (self', Raise e)
           \<and> guesses self' = guesses (attempts_through env remaining_words entire_game_board group_size self pre)" .
  }
qed

theorem parse_failure_leaves_store_witness:
  "parse_guesser_reply ''Group: Bass, Trout, Salmon, Cod''
      = Inl (ValueError ''GuesserAgent's reply is missing 'Category'.'')
   \<and> snd (guess_loop malformed demo_words demo_words 4 [1, 2, 3] seasoned)
      = Inl (ValueError ''GuesserAgent's reply is missing 'Category'.'')
   \<and> guesses (fst (guess_loop malformed demo_words demo_words 4 [1, 2, 3] seasoned)) = guesses seasoned
   \<and> parse_validator_reply ''Group: Cod, Bass''
      = Inl (ValueError ''ValidatorAgent's group does not contain exactly 4 words.'')
   \<and> snd (guess_loop half_checked demo_words demo_words 4 [1, 2, 3] seasoned)
      = Inl (ValueError ''ValidatorAgent's group does not contain exactly 4 words.'')
   \<and> guesses (fst (guess_loop half_checked demo_words demo_words 4 [1, 2, 3] seasoned)) = guesses seasoned
   \<and> snd (guess malformed demo_words demo_words 4 seasoned)
      = Inl (ValueError ''GuesserAgent's reply is missing 'Category'.'')
   \<and> (\<exists>pre k post. [1..<max_retries + 1] = pre @ k # post
         \<and> guesses (fst (guess malformed demo_words demo_words 4 seasoned))
             = guesses (attempts_through malformed demo_words demo_words 4 seasoned pre))"
proof -
  let ?gp = "\<lambda>env. guesser_prompt_text (feedback_text env (guesses seasoned) demo_words demo_words)
           (join '', '' demo_words) 4"
  let ?em = "ValueError ''GuesserAgent's reply is missing 'Category'.''"
  let ?ev = "ValueError ''ValidatorAgent's group does not contain exactly 4 words.''"
  let ?m1 = "fst (get_agent_reply malformed seasoned GuesserAgent (?gp malformed))"
  let ?h1 = "fst (get_agent_reply half_checked seasoned GuesserAgent (?gp half_checked))"
  let ?vp = "validator_prompt_text (feedback_text half_checked (guesses seasoned) demo_words demo_words)
           (join '', '' demo_words) ''Fish''"
  let ?h2 = "fst (get_agent_reply half_checked ?h1 ValidatorAgent ?vp)"
  have gm: "get_agent_reply malformed seasoned GuesserAgent (?gp malformed)
      = (?m1, Inr ''Group: Bass, Trout, Salmon, Cod'')"
    by (simp add: get_agent_reply_eq demo_replies reply_text_simps)
  have gh: "get_agent_reply half_checked seasoned GuesserAgent (?gp half_checked) = (?h1, Inr fish_reply)"
    by (simp add: get_agent_reply_eq demo_replies reply_text_simps fish_reply_nonempty)
  have vh: "get_agent_reply half_checked ?h1 ValidatorAgent ?vp = (?h2, Inr ''Group: Cod, Bass'')"
    by (simp add: get_agent_reply_eq demo_replies reply_text_simps)
  note t1 = parse_failure_leaves_store [where env = malformed and before = seasoned
      and remaining_words = demo_words and entire_game_board = demo_words and group_size = 4
      and ?self1.0 = ?m1 and ?s1.0 = "''Group: Bass, Trout, Salmon, Cod''" and e = ?em
      and attempt = 1 and rest = "[2, 3]", THEN conjunct1, rule_format, OF gm parse_demo_malformed]
  note t2 = parse_failure_leaves_store [where env = half_checked and before = seasoned
      and remaining_words = demo_words and entire_game_board = demo_words and group_size = 4
      and ?self1.0 = ?h1 and ?s1.0 = fish_reply and g = fish and c = "''Fish''"
      and ?self2.0 = ?h2 and ?s2.0 = "''Group: Cod, Bass''" and e = ?ev
      and attempt = 1 and rest = "[2, 3]", THEN conjunct2, THEN conjunct1, rule_format,
      OF gh parse_demo_guesser vh parse_demo_short]
  have run: "guess malformed demo_words demo_words 4 seasoned
      = (fst (guess malformed demo_words demo_words 4 seasoned), Inl ?em)"
    by (simp add: guess_malformed)
  have ne: "?em \<noteq> max_retries_error"
    by (simp add: max_retries_error_def)
  note t3 = parse_failure_leaves_store [where env = malformed and self = seasoned
      and remaining_words = demo_words and entire_game_board = demo_words and group_size = 4
      and self' = "fst (guess malformed demo_words demo_words 4 seasoned)" and e = ?em,
      THEN conjunct2, THEN conjunct2, rule_format, OF run ne]
  have a: "snd (guess_loop malformed demo_words demo_words 4 [1, 2, 3] seasoned) = Inl ?em"
    "guesses (fst (guess_loop malformed demo_words demo_words 4 [1, 2, 3] seasoned)) = guesses seasoned"
    using t1 by simp_all
  have b: "snd (guess_loop half_checked demo_words demo_words 4 [1, 2, 3] seasoned) = Inl ?ev"
    "guesses (fst (guess_loop half_checked demo_words demo_words 4 [1, 2, 3] seasoned)) = guesses seasoned"
    using t2 by simp_all
  have c: "snd (guess malformed demo_words demo_words 4 seasoned) = Inl ?em"
    by (simp add: guess_malformed)
  from t3 obtain pre k post where
    "[1..<max_retries + 1] = pre @ k # post"
    "guesses (fst (guess malformed demo_words demo_words 4 seasoned))
             = guesses (attempts_through malformed demo_words demo_words 4 seasoned pre)"
    by (elim exE conjE)
  then have d: "\<exists>pre k post. [1..<max_retries + 1] = pre @ k # post
         \<and> guesses (fst (guess malformed demo_words demo_words 4 seasoned))
             = guesses (attempts_through malformed demo_words demo_words 4 seasoned pre)"
    by (intro exI conjI)
  from parse_demo_malformed a parse_demo_short b c d show ?thesis
    by (intro conjI)
qed

section \<open>Feedback\<close>

lemma startswith_append: "startswith (p @ post) p"
  by (simp add: startswith_def)

lemma contains_prefix: "contains (p @ post) p"
proof (cases "p @ post")
  case Nil
  then show ?thesis by simp
next
  case (Cons a list)
  have "startswith (p @ post) p" by (rule startswith_append)
  then have "startswith (a # list) p" unfolding Cons .
  then have "contains (a # list) p" by simp
  then show ?thesis unfolding Cons .
qed

lemma contains_infix: "contains (pre @ p @ post) p"
proof (induction pre)
  case Nil
  show ?case using contains_prefix by simp
next
  case (Cons x pre)
  then show ?case by simp
qed

lemma guesser_prompt_prepends:
  "guesser_prompt_text fb rs gs = fb @ guesser_prompt_text [] rs gs"
  by (simp add: guesser_prompt_text_def)

lemma validator_prompt_prepends:
  "validator_prompt_text fb rs c = fb @ validator_prompt_text [] rs c"
  by (simp add: validator_prompt_text_def)

lemma feedback_text_shape:
  assumes "gs \<noteq> []"
  shows "\<exists>tail. feedback_text env gs rw board =
           feedback_header @ concat (map (\<lambda>(category, word_groups). feedback_line category word_groups) gs) @ tail"
  using assms by (simp add: feedback_text_def feedback_header_def Let_def)

lemma listed_mentions:
  assumes "listed c g gs"
  shows "mentions (feedback_text env gs rw board) c g
         \<and> startswith (feedback_text env gs rw board) feedback_header"
proof -
  let ?f = "\<lambda>(category, word_groups). feedback_line category word_groups"
  from assms obtain w where w: "(c, w) \<in> set gs" "g \<in> set w"
    unfolding listed_def by (elim exE conjE)
  then have ne: "gs \<noteq> []" by auto
  from feedback_text_shape [OF ne] obtain tail where
    fb: "feedback_text env gs rw board = feedback_header @ concat (map ?f gs) @ tail" ..
  from w(1) obtain a b where ab: "gs = a @ (c, w) # b"
    by (auto dest: split_list)
  have "concat (map ?f gs) = concat (map ?f a) @ feedback_line c w @ concat (map ?f b)"
    unfolding ab by simp
  then have "feedback_text env gs rw board =
      (feedback_header @ concat (map ?f a)) @ feedback_line c w @ (concat (map ?f b) @ tail)"
    using fb by simp
  then have "contains (feedback_text env gs rw board) (feedback_line c w)"
    using contains_infix [of "feedback_header @ concat (map ?f a)" "feedback_line c w" "concat (map ?f b) @ tail"]
    by simp
  then have "mentions (feedback_text env gs rw board) c g"
    unfolding mentions_def using w(2) by (intro exI [of _ w] conjI)
  moreover have "startswith (feedback_text env gs rw board) feedback_header"
    unfolding fb by (rule startswith_append)
  ultimately show ?thesis ..
qed

lemma later_listed:
  "later st1 st2 \<Longrightarrow> listed c g (guesses st1) \<Longrightarrow> listed c g (guesses st2)"
proof (induction rule: later.induct)
  case (same self1)
  then show ?case .
next
  case (attempt self1 self2 env remaining_words entire_game_board group_size k self3 s)
  from attempt.hyps(2) attempt.IH [OF attempt.prems] show ?case
    by (rule attempt_body_listed_mono)
next
  case (call self1 self2 env remaining_words entire_game_board group_size self3 res)
  from call.hyps(2) have "guess_loop env remaining_words entire_game_board group_size [1..<max_retries + 1] self2 = (self3, res)"
    by (simp add: guess_def)
  from this call.IH [OF call.prems] show ?case
    by (rule guess_loop_listed_mono)
qed

lemma round_listed:
  assumes "attempt_body env rw board gs k st = (st1, s)"
    and "consensus_round (new_queries st st1) g c v b"
  shows "listed c g (guesses st1)"
proof -
  from assms(2) obtain p1 r1 s1 p2 r2 s2 r3 s3 where r:
    "new_queries st st1 = [(GuesserAgent, p1, r1), (ValidatorAgent, p2, r2),
               (ConsensusAgent, consensus_prompt_text g v, r3)]"
    "reply_text r1 = Some s1" "parse_guesser_reply s1 = Inr (g, c)"
    "reply_text r3 = Some s3"
    unfolding consensus_round_def by (elim exE conjE)
  from assms(1) show ?thesis
  proof (cases rule: attempt_body_cases)
    case (guesser_failed e r1')
    then have "length (new_queries st st1) = 1" by (simp add: new_queries_def)
    with r(1) show ?thesis by simp
  next
    case (validator_failed e r1' s1' g' c' r2')
    then have "length (new_queries st st1) = 2" by (simp add: new_queries_def)
    with r(1) show ?thesis by simp
  next
    case (consensus_failed e r1' s1' g' c' r2' s2' v' r3')
    then have "snd (snd (new_queries st st1 ! 2)) = r3'" by (simp add: new_queries_def)
    with r(1) have "r3' = r3" by simp
    with consensus_failed r(4) show ?thesis by simp
  next
    case (completed r1' s1' g' c' r2' s2' v' r3' s3')
    then have "snd (snd (new_queries st st1 ! 0)) = r1'" by (simp add: new_queries_def)
    with r(1) have "r1' = r1" by simp
    with completed r(2,3) have "g' = g" "c' = c" by simp_all
    with completed(2) show ?thesis by (simp add: listed_record_guess)
  qed
qed

lemma join_split:
  "x \<in> set xs \<Longrightarrow>
     \<exists>pre post. join sep xs = pre @ x @ post
       \<and> (pre = [] \<or> (\<exists>pre'. pre = pre' @ sep))
       \<and> (post = [] \<or> (\<exists>post'. post = sep @ post'))"
proof (induction sep xs rule: join.induct)
  case (1 sep)
  then show ?case by simp
next
  case (2 sep y)
  then have "join sep [y] = [] @ x @ []" by simp
  moreover have "([] :: string) = [] \<or> (\<exists>pre'. [] = pre' @ sep)"
    by simp
  moreover have "([] :: string) = [] \<or> (\<exists>post'. [] = sep @ post')"
    by simp
  ultimately show ?case by (intro exI conjI)
next
  case (3 sep y z zs)
  show ?case
  proof (cases "x = y")
    case True
    have "join sep (y # z # zs) = [] @ x @ (sep @ join sep (z # zs))"
      using True by simp
    moreover have "([] :: string) = [] \<or> (\<exists>pre'. [] = pre' @ sep)"
      by simp
    moreover have "sep @ join sep (z # zs) = [] \<or> (\<exists>post'. sep @ join sep (z # zs) = sep @ post')"
      by simp
    ultimately show ?thesis by (intro exI conjI)
  next
    case False
    with "3.prems" have "x \<in> set (z # zs)" by simp
    from "3.IH" [OF this] obtain pre post where p: "join sep (z # zs) = pre @ x @ post"
      "pre = [] \<or> (\<exists>pre'. pre = pre' @ sep)"
      "post = [] \<or> (\<exists>post'. post = sep @ post')"
      by (elim exE conjE)
    have "join sep (y # z # zs) = (y @ sep @ pre) @ x @ post"
      using p(1) by simp
    moreover have "y @ sep @ pre = [] \<or> (\<exists>pre'. y @ sep @ pre = pre' @ sep)"
      using p(2)
    proof
      assume "pre = []"
      then have "y @ sep @ pre = y @ sep" by simp
      then have "\<exists>pre'. y @ sep @ pre = pre' @ sep" ..
      then show ?thesis ..
    next
      assume "\<exists>pre'. pre = pre' @ sep"
      then obtain pre' where "pre = pre' @ sep" ..
      then have "y @ sep @ pre = (y @ sep @ pre') @ sep" by simp
      then have "\<exists>pre'. y @ sep @ pre = pre' @ sep" ..
      then show ?thesis ..
    qed
    ultimately show ?thesis using p(3) by (intro exI conjI)
  qed
qed

lemma feedback_header_ends: "\<exists>h. feedback_header = h @ [CHR 0x0A]"
proof -
  define h where "h = ''Note:'' @ nl @
     ''- Be aware that the following category and word group pairs either do not match or the category isn't specific enough. Do not repeat them!:''"
  have "feedback_header = h @ [CHR 0x0A]"
    by (simp only: h_def feedback_header_def nl_def append_assoc)
  then show ?thesis by (rule exI)
qed

lemma feedback_lines_end:
  "\<exists>a. feedback_header @ concat (map (\<lambda>(category, word_groups). feedback_line category word_groups) xs)
       = a @ [CHR 0x0A]"
proof (cases xs rule: rev_cases)
  case Nil
  from feedback_header_ends obtain h where "feedback_header = h @ [CHR 0x0A]" ..
  then have "feedback_header @ concat (map (\<lambda>(category, word_groups). feedback_line category word_groups) xs)
      = h @ [CHR 0x0A]"
    unfolding Nil by simp
  then show ?thesis by (rule exI)
next
  case (snoc ys y)
  obtain c' w' where y: "y = (c', w')" by (cases y)
  have "feedback_header @ concat (map (\<lambda>(category, word_groups). feedback_line category word_groups) xs)
      = (feedback_header @ concat (map (\<lambda>(category, word_groups). feedback_line category word_groups) ys)
          @ ''  * '' @ c' @ '': '' @ join ''; '' (map group_str w')) @ [CHR 0x0A]"
    unfolding snoc y by (simp add: feedback_line_def nl_def)
  then show ?thesis by (intro exI)
qed

lemma listed_feedback_text:
  assumes "listed c [w1, w2, w3, w4] gs"
  shows "\<exists>a pre post b.
      feedback_text env gs rw board =
        a @ [CHR 0x0A] @ ''  * '' @ c @ '': '' @ pre @
        ''('' @ w1 @ '', '' @ w2 @ '', '' @ w3 @ '', '' @ w4 @ '')'' @ post @ [CHR 0x0A] @ b
      \<and> (pre = [] \<or> (\<exists>pre'. pre = pre' @ ''; ''))
      \<and> (post = [] \<or> (\<exists>post'. post = ''; '' @ post'))"
proof -
  let ?f = "\<lambda>(category, word_groups). feedback_line category word_groups"
  let ?g = "[w1, w2, w3, w4]"
  from assms obtain w where w: "(c, w) \<in> set gs" "?g \<in> set w"
    unfolding listed_def by (elim exE conjE)
  then have ne: "gs \<noteq> []" by auto
  from feedback_text_shape [OF ne] obtain tail where
    fb: "feedback_text env gs rw board = feedback_header @ concat (map ?f gs) @ tail" ..
  from w(1) obtain xs ys where xy: "gs = xs @ (c, w) # ys"
    by (auto dest: split_list)
  from feedback_lines_end [of xs] obtain a where a: "feedback_header @ concat (map ?f xs) = a @ [CHR 0x0A]" ..
  from w(2) have "group_str ?g \<in> set (map group_str w)" by simp
  from join_split [OF this, of "''; ''"] obtain pre post where j:
    "join ''; '' (map group_str w) = pre @ group_str ?g @ post"
    "pre = [] \<or> (\<exists>pre'. pre = pre' @ ''; '')"
    "post = [] \<or> (\<exists>post'. post = ''; '' @ post')"
    by (elim exE conjE)
  have gs: "group_str ?g = ''('' @ w1 @ '', '' @ w2 @ '', '' @ w3 @ '', '' @ w4 @ '')''"
    by (simp add: group_str_def)
  have line: "feedback_line c w = ''  * '' @ c @ '': '' @ pre @
        ''('' @ w1 @ '', '' @ w2 @ '', '' @ w3 @ '', '' @ w4 @ '')'' @ post @ [CHR 0x0A]"
    unfolding feedback_line_def j(1) gs by (simp add: nl_def)
  have "concat (map ?f gs) = concat (map ?f xs) @ feedback_line c w @ concat (map ?f ys)"
    unfolding xy by simp
  then have "feedback_text env gs rw board =
      (feedback_header @ concat (map ?f xs)) @ feedback_line c w @ (concat (map ?f ys) @ tail)"
    using fb by simp
  then have "feedback_text env gs rw board =
        a @ [CHR 0x0A] @ ''  * '' @ c @ '': '' @ pre @
        ''('' @ w1 @ '', '' @ w2 @ '', '' @ w3 @ '', '' @ w4 @ '')'' @ post @ [CHR 0x0A] @ (concat (map ?f ys) @ tail)"
    unfolding a line by simp
  with j(2,3) show ?thesis by (intro exI conjI)
qed

lemma consensus_round_length:
  assumes "consensus_round log g c v b"
  shows "length g = 4"
proof -
  from assms obtain s1 where "parse_guesser_reply s1 = Inr (g, c)"
    unfolding consensus_round_def by (elim exE conjE)
  then show ?thesis by (rule parse_guesser_reply_length)
qed

lemma attempt_prompts:
  assumes "attempt_body env rw board gs k st = (st', s)"
  shows "\<exists>r1 rest. new_queries st st' =
            (GuesserAgent, feedback_text env (guesses st) rw board @ guesser_prompt_text [] (join '', '' rw) gs, r1) # rest
          \<and> (\<forall>i \<in> set rest. fst i = ValidatorAgent \<longrightarrow>
                (\<exists>c'. fst (snd i) = feedback_text env (guesses st) rw board @ validator_prompt_text [] (join '', '' rw) c'))"
proof -
  let ?fb = "feedback_text env (guesses st) rw board"
  have gp: "guesser_prompt_text ?fb (join '', '' rw) gs = ?fb @ guesser_prompt_text [] (join '', '' rw) gs"
    by (rule guesser_prompt_prepends)
  have vp: "validator_prompt_text ?fb (join '', '' rw) c' = ?fb @ validator_prompt_text [] (join '', '' rw) c'" for c'
    by (rule validator_prompt_prepends)
  from assms show ?thesis
  proof (cases rule: attempt_body_cases)
    case (guesser_failed e r1)
    then have "new_queries st st' = (GuesserAgent, ?fb @ guesser_prompt_text [] (join '', '' rw) gs, r1) # []"
      unfolding gp by (simp add: new_queries_def)
    moreover have "\<forall>i \<in> set ([] :: interaction list). fst i = ValidatorAgent \<longrightarrow>
        (\<exists>c'. fst (snd i) = ?fb @ validator_prompt_text [] (join '', '' rw) c')"
      by simp
    ultimately show ?thesis by (intro exI conjI)
  next
    case (validator_failed e r1 s1 g c r2)
    then have "new_queries st st' = (GuesserAgent, ?fb @ guesser_prompt_text [] (join '', '' rw) gs, r1) #
        [(ValidatorAgent, ?fb @ validator_prompt_text [] (join '', '' rw) c, r2)]"
      unfolding gp vp by (simp add: new_queries_def)
    moreover have "\<forall>i \<in> set [(ValidatorAgent, ?fb @ validator_prompt_text [] (join '', '' rw) c, r2)].
        fst i = ValidatorAgent \<longrightarrow>
        (\<exists>c'. fst (snd i) = ?fb @ validator_prompt_text [] (join '', '' rw) c')"
      by auto
    ultimately show ?thesis by (intro exI conjI)
  next
    case (consensus_failed e r1 s1 g c r2 s2 v r3)
    then have "new_queries st st' = (GuesserAgent, ?fb @ guesser_prompt_text [] (join '', '' rw) gs, r1) #
        [(ValidatorAgent, ?fb @ validator_prompt_text [] (join '', '' rw) c, r2),
         (ConsensusAgent, consensus_prompt_text g v, r3)]"
      unfolding gp vp by (simp add: new_queries_def)
    moreover have "\<forall>i \<in> set [(ValidatorAgent, ?fb @ validator_prompt_text [] (join '', '' rw) c, r2),
         (ConsensusAgent, consensus_prompt_text g v, r3)].
        fst i = ValidatorAgent \<longrightarrow>
        (\<exists>c'. fst (snd i) = ?fb @ validator_prompt_text [] (join '', '' rw) c')"
      by auto
    ultimately show ?thesis by (intro exI conjI)
  next
    case (completed r1 s1 g c r2 s2 v r3 s3)
    then have "new_queries st st' = (GuesserAgent, ?fb @ guesser_prompt_text [] (join '', '' rw) gs, r1) #
        [(ValidatorAgent, ?fb @ validator_prompt_text [] (join '', '' rw) c, r2),
         (ConsensusAgent, consensus_prompt_text g v, r3)]"
      unfolding gp vp by (simp add: new_queries_def)
    moreover have "\<forall>i \<in> set [(ValidatorAgent, ?fb @ validator_prompt_text [] (join '', '' rw) c, r2),
         (ConsensusAgent, consensus_prompt_text g v, r3)].
        fst i = ValidatorAgent \<longrightarrow>
        (\<exists>c'. fst (snd i) = ?fb @ validator_prompt_text [] (join '', '' rw) c')"
      by auto
    ultimately show ?thesis by (intro exI conjI)
  qed
qed

text \<open>
  C3. After an attempt whose consensus check on the pair of category \<open>c\<close> and group \<open>g\<close> parsed as
  not reached, every attempt that starts later on the same solver (in the same call or a
  later one, with no reset in between) builds a feedback that starts with the "do not
  repeat" header and has, on a line of its own, the text \<^verbatim>\<open>  * \<close>, the category \<open>c\<close>,
  \<^verbatim>\<open>: \<close> and the groups recorded for \<open>c\<close>, separated by \<^verbatim>\<open>; \<close>, among them the four words of \<open>g\<close>
  in brackets, separated by \<^verbatim>\<open>, \<close>. The guesser's prompt of that attempt, and the validator's when it
  is asked, are this feedback followed by the prompt for an empty feedback. After a reset the
  feedback is empty.
\<close>

theorem rejected_pair_in_later_feedback:
  assumes "attempt_body env remaining_words entire_game_board group_size k self = (self1, s)"
    and "consensus_round (new_queries self self1) g c v False"
    and "later self1 self2"
  shows "mentions (feedback_text env' (guesses self2) remaining_words' entire_game_board') c g
     \<and> (\<exists>a pre post b w1 w2 w3 w4. g = [w1, w2, w3, w4]
         \<and> feedback_text env' (guesses self2) remaining_words' entire_game_board' =
             a @ [CHR 0x0A] @ ''  * '' @ c @ '': '' @ pre @
             ''('' @ w1 @ '', '' @ w2 @ '', '' @ w3 @ '', '' @ w4 @ '')'' @ post @ [CHR 0x0A] @ b
         \<and> (pre = [] \<or> (\<exists>pre'. pre = pre' @ ''; ''))
         \<and> (post = [] \<or> (\<exists>post'. post = ''; '' @ post')))
     \<and> startswith (feedback_text env' (guesses self2) remaining_words' entire_game_board') feedback_header
     \<and> (\<exists>self3 s' r1 rest.
           attempt_body env' remaining_words' entire_game_board' group_size' k' self2 = (self3, s')
         \<and> new_queries self2 self3 =
              (GuesserAgent,
               feedback_text env' (guesses self2) remaining_words' entire_game_board'
                 @ guesser_prompt_text [] (join '', '' remaining_words') group_size', r1) # rest
         \<and> (\<forall>i \<in> set rest. fst i = ValidatorAgent \<longrightarrow>
               (\<exists>c'. fst (snd i) =
                  feedback_text env' (guesses self2) remaining_words' entire_game_board'
                    @ validator_prompt_text [] (join '', '' remaining_words') c')))
     \<and> feedback_text env' (guesses (reset self2)) remaining_words' entire_game_board' = []"
proof -
  have "listed c g (guesses self1)"
    using assms(1,2) by (rule round_listed)
  with assms(3) have l: "listed c g (guesses self2)"
    by (rule later_listed)
  note m = listed_mentions [OF l, of env' remaining_words' entire_game_board']
  note m1 = m [THEN conjunct1] and m2 = m [THEN conjunct2]
  from assms(2) have "length g = 4" by (rule consensus_round_length)
  then obtain w1 w2 w3 w4 where g: "g = [w1, w2, w3, w4]" by (rule four_words)
  from l have "listed c [w1, w2, w3, w4] (guesses self2)" unfolding g .
  from listed_feedback_text [OF this, of env' remaining_words' entire_game_board']
  obtain a pre post b where
    "feedback_text env' (guesses self2) remaining_words' entire_game_board' =
             a @ [CHR 0x0A] @ ''  * '' @ c @ '': '' @ pre @
             ''('' @ w1 @ '', '' @ w2 @ '', '' @ w3 @ '', '' @ w4 @ '')'' @ post @ [CHR 0x0A] @ b"
    "pre = [] \<or> (\<exists>pre'. pre = pre' @ ''; '')"
    "post = [] \<or> (\<exists>post'. post = ''; '' @ post')"
    by (elim exE conjE)
  with g have e: "\<exists>a pre post b w1 w2 w3 w4. g = [w1, w2, w3, w4]
         \<and> feedback_text env' (guesses self2) remaining_words' entire_game_board' =
             a @ [CHR 0x0A] @ ''  * '' @ c @ '': '' @ pre @
             ''('' @ w1 @ '', '' @ w2 @ '', '' @ w3 @ '', '' @ w4 @ '')'' @ post @ [CHR 0x0A] @ b
         \<and> (pre = [] \<or> (\<exists>pre'. pre = pre' @ ''; ''))
         \<and> (post = [] \<or> (\<exists>post'. post = ''; '' @ post'))"
    by (intro exI conjI)
  obtain self3 s' where a: "attempt_body env' remaining_words' entire_game_board' group_size' k' self2 = (self3, s')"
    by (cases "attempt_body env' remaining_words' entire_game_board' group_size' k' self2")
  from attempt_prompts [OF a] obtain r1 rest where p:
    "new_queries self2 self3 =
              (GuesserAgent,
               feedback_text env' (guesses self2) remaining_words' entire_game_board'
                 @ guesser_prompt_text [] (join '', '' remaining_words') group_size', r1) # rest"
    "\<forall>i \<in> set rest. fst i = ValidatorAgent \<longrightarrow>
               (\<exists>c'. fst (snd i) =
                  feedback_text env' (guesses self2) remaining_words' entire_game_board'
                    @ validator_prompt_text [] (join '', '' remaining_words') c')"
    by (elim exE conjE)
  have q: "\<exists>self3 s' r1 rest.
           attempt_body env' remaining_words' entire_game_board' group_size' k' self2 = (self3, s')
         \<and> new_queries self2 self3 =
              (GuesserAgent,
               feedback_text env' (guesses self2) remaining_words' entire_game_board'
                 @ guesser_prompt_text [] (join '', '' remaining_words') group_size', r1) # rest
         \<and> (\<forall>i \<in> set rest. fst i = ValidatorAgent \<longrightarrow>
               (\<exists>c'. fst (snd i) =
                  feedback_text env' (guesses self2) remaining_words' entire_game_board'
                    @ validator_prompt_text [] (join '', '' remaining_words') c'))"
    using a p by (intro exI conjI)
  have r: "feedback_text env' (guesses (reset self2)) remaining_words' entire_game_board' = []"
    by (simp add: reset_def feedback_text_def)
  from m1 e m2 q r show ?thesis by (intro conjI)
qed

theorem rejected_pair_in_later_feedback_witness:
  "attempt_body disagreeing demo_words demo_words 4 1 new_solver
     = (fst (attempt_body disagreeing demo_words demo_words 4 1 new_solver), Continue)
   \<and> consensus_round
        (new_queries new_solver (fst (attempt_body disagreeing demo_words demo_words 4 1 new_solver)))
        fish ''Fish'' [''Cod'', ''Bass'', ''Trout'', ''Ant''] False
   \<and> later (fst (attempt_body disagreeing demo_words demo_words 4 1 new_solver))
        (fst (attempt_body disagreeing demo_words demo_words 4 2
               (fst (attempt_body disagreeing demo_words demo_words 4 1 new_solver))))
   \<and> feedback_text agreeing
        (guesses (fst (attempt_body disagreeing demo_words demo_words 4 2
               (fst (attempt_body disagreeing demo_words demo_words 4 1 new_solver)))))
        demo_words demo_words
       = feedback_header @ ''  * Fish: (Bass, Trout, Salmon, Cod); (Bass, Trout, Salmon, Cod)'' @ nl
   \<and> mentions (feedback_text agreeing
        (guesses (fst (attempt_body disagreeing demo_words demo_words 4 2
               (fst (attempt_body disagreeing demo_words demo_words 4 1 new_solver)))))
        demo_words demo_words) ''Fish'' fish
   \<and> (\<exists>a pre post b w1 w2 w3 w4. fish = [w1, w2, w3, w4]
         \<and> feedback_text agreeing
              (guesses (fst (attempt_body disagreeing demo_words demo_words 4 2
                 (fst (attempt_body disagreeing demo_words demo_words 4 1 new_solver)))))
              demo_words demo_words =
             a @ [CHR 0x0A] @ ''  * '' @ ''Fish'' @ '': '' @ pre @
             ''('' @ w1 @ '', '' @ w2 @ '', '' @ w3 @ '', '' @ w4 @ '')'' @ post @ [CHR 0x0A] @ b
         \<and> (pre = [] \<or> (\<exists>pre'. pre = pre' @ ''; ''))
         \<and> (post = [] \<or> (\<exists>post'. post = ''; '' @ post')))"
proof -
  let ?s1 = "fst (attempt_body disagreeing demo_words demo_words 4 1 new_solver)"
  let ?s2 = "fst (attempt_body disagreeing demo_words demo_words 4 2 ?s1)"
  have run1: "attempt_body disagreeing demo_words demo_words 4 1 new_solver = (?s1, Continue)"
    by (simp add: attempt_disagreeing max_retries_def)
  have nq: "new_queries new_solver ?s1 =
      [(GuesserAgent, guesser_prompt_text (feedback_text disagreeing (guesses new_solver) demo_words demo_words)
           (join '', '' demo_words) 4, ReplyStr fish_reply),
       (ValidatorAgent, validator_prompt_text (feedback_text disagreeing (guesses new_solver) demo_words demo_words)
           (join '', '' demo_words) ''Fish'', ReplyStr ''Group: Cod, Bass, Trout, Ant''),
       (ConsensusAgent, consensus_prompt_text fish [''Cod'', ''Bass'', ''Trout'', ''Ant''],
           ReplyStr ''Consensus not reached'')]"
    by (simp add: attempt_disagreeing new_queries_def new_solver_def)
  have round: "consensus_round (new_queries new_solver ?s1) fish ''Fish'' [''Cod'', ''Bass'', ''Trout'', ''Ant''] False"
    using nq
  proof (rule consensus_roundI)
    show "reply_text (ReplyStr fish_reply) = Some fish_reply"
      by (simp add: reply_text_simps fish_reply_nonempty)
    show "parse_guesser_reply fish_reply = Inr (fish, ''Fish'')" by (rule parse_demo_guesser)
    show "reply_text (ReplyStr ''Group: Cod, Bass, Trout, Ant'') = Some ''Group: Cod, Bass, Trout, Ant''"
      by (simp add: reply_text_simps)
    show "parse_validator_reply ''Group: Cod, Bass, Trout, Ant'' = Inr [''Cod'', ''Bass'', ''Trout'', ''Ant'']"
      by (rule parse_demo_validator)
    show "reply_text (ReplyStr ''Consensus not reached'') = Some ''Consensus not reached''"
      by (simp add: reply_text_simps)
    show "parse_consensus_reply ''Consensus not reached'' = False" by (rule parse_demo_consensus)
  qed
  have run2: "attempt_body disagreeing demo_words demo_words 4 2 ?s1 = (?s2, snd (attempt_body disagreeing demo_words demo_words 4 2 ?s1))"
    by simp
  have lat: "later ?s1 ?s2"
    by (rule later.attempt [OF later.same run2])
  have g2: "guesses ?s2 = [(''Fish'', [fish, fish])]"
    by (simp add: attempt_disagreeing new_solver_def record_guess_def)
  have fb: "feedback_text agreeing (guesses ?s2) demo_words demo_words
       = feedback_header @ ''  * Fish: (Bass, Trout, Salmon, Cod); (Bass, Trout, Salmon, Cod)'' @ nl"
    unfolding g2
    by (simp add: feedback_text_def feedback_header_def feedback_line_def group_str_def fish_def)
  note t = rejected_pair_in_later_feedback [OF run1 round lat, of agreeing demo_words demo_words]
  from t have m: "mentions (feedback_text agreeing (guesses ?s2) demo_words demo_words) ''Fish'' fish"
    by (rule conjunct1)
  note e = t [THEN conjunct2, THEN conjunct1]
  from run1 round lat fb m e show ?thesis by (intro conjI)
qed

text \<open>
  C2, as stated, fails: in this call the first attempt reaches consensus, no consensus check
  is rejected, and the returned pair, which the store did not hold before, is in the store
  afterwards.
\<close>

theorem agreed_pair_is_recorded:
  "snd (guess agreeing demo_words demo_words 4 new_solver) = Inr (fish, ''Fish'')
   \<and> \<not> listed ''Fish'' fish (guesses new_solver)
   \<and> rejections (new_queries new_solver (fst (guess agreeing demo_words demo_words 4 new_solver))) = 0
   \<and> guesses (fst (guess agreeing demo_words demo_words 4 new_solver)) = [(''Fish'', [fish])]
   \<and> listed ''Fish'' fish (guesses (fst (guess agreeing demo_words demo_words 4 new_solver)))"
proof -
  have g: "guesses (fst (guess agreeing demo_words demo_words 4 new_solver)) = [(''Fish'', [fish])]"
    by (simp add: guess_agreeing attempt_agreeing new_solver_def record_guess_def)
  have r: "rejections (new_queries new_solver (fst (guess agreeing demo_words demo_words 4 new_solver))) = 0"
    by (simp add: guess_agreeing attempt_agreeing new_solver_def new_queries_def rejections_def
          reply_text_simps parse_demo_consensus)
  have l: "listed ''Fish'' fish (guesses (fst (guess agreeing demo_words demo_words 4 new_solver)))"
    unfolding g by (simp add: listed_def)
  have n: "\<not> listed ''Fish'' fish (guesses new_solver)"
    by (simp add: listed_def new_solver_def)
  have s: "snd (guess agreeing demo_words demo_words 4 new_solver) = Inr (fish, ''Fish'')"
    by (simp add: guess_agreeing)
  from s n r g l show ?thesis by (intro conjI)
qed

text \<open>
  C2, amended. The store records the guess of every attempt that goes through the consensus
  check, whatever the verdict: a pair is in the store after a call only if it was there before
  the call or an attempt of the call proposed it and had its consensus check answered; and
  the pair a call returns is in the store.
\<close>

theorem feedback_store_origin:
  assumes "guess env remaining_words entire_game_board group_size self = (self', res)"
  shows "(listed c g (guesses self') \<longrightarrow>
            listed c g (guesses self) \<or>
            (\<exists>pre round post v b. new_queries self self' = pre @ round @ post
                \<and> consensus_round round g c v b))
       \<and> (res = Inr (g, c) \<longrightarrow> listed c g (guesses self'))"
proof (intro conjI impI)
  from assms have run:
    "guess_loop env remaining_words entire_game_board group_size [1..<max_retries + 1] self = (self', res)"
    by (simp add: guess_def)
  {
    assume "listed c g (guesses self')"
    from guess_loop_listed_origin [OF run this]
    show "listed c g (guesses self) \<or>
            (\<exists>pre round post v b. new_queries self self' = pre @ round @ post
                \<and> consensus_round round g c v b)"
    proof
      assume "listed c g (guesses self)"
      then show ?thesis ..
    next
      assume "\<exists>pre round post v b. queries self' = queries self @ pre @ round @ post
          \<and> consensus_round round g c v b"
      then obtain pre round post v b where q: "queries self' = queries self @ pre @ round @ post"
        and r: "consensus_round round g c v b"
        by (elim exE conjE)
      from q have "new_queries self self' = pre @ round @ post"
        by (rule new_queries_append)
      with r have "\<exists>pre round post v b. new_queries self self' = pre @ round @ post
                \<and> consensus_round round g c v b"
        by (intro exI conjI)
      then show ?thesis ..
    qed
  }
  {
    assume "res = Inr (g, c)"
    with run have "guess_loop env remaining_words entire_game_board group_size [1..<max_retries + 1] self
        = (self', Inr (g, c))"
      by simp
    from guess_loop_returns [OF this] show "listed c g (guesses self')"
      by (elim exE conjE)
  }
qed

theorem feedback_store_origin_witness:
  "guess agreeing demo_words demo_words 4 new_solver
     = (fst (guess agreeing demo_words demo_words 4 new_solver), Inr (fish, ''Fish''))
   \<and> listed ''Fish'' fish (guesses (fst (guess agreeing demo_words demo_words 4 new_solver)))
   \<and> \<not> listed ''Fish'' fish (guesses new_solver)
   \<and> (\<exists>pre round post v b.
        new_queries new_solver (fst (guess agreeing demo_words demo_words 4 new_solver)) = pre @ round @ post
        \<and> consensus_round round fish ''Fish'' v b)"
proof -
  let ?s = "fst (guess agreeing demo_words demo_words 4 new_solver)"
  have run: "guess agreeing demo_words demo_words 4 new_solver = (?s, Inr (fish, ''Fish''))"
    by (simp add: guess_agreeing)
  note t = feedback_store_origin [OF run, of "''Fish''" fish]
  from t have l: "listed ''Fish'' fish (guesses ?s)"
    by simp
  have n: "\<not> listed ''Fish'' fish (guesses new_solver)"
    by (simp add: listed_def new_solver_def)
  from t l n have r: "\<exists>pre round post v b.
        new_queries new_solver ?s = pre @ round @ post \<and> consensus_round round fish ''Fish'' v b"
    by simp
  from run l n r show ?thesis by (intro conjI)
qed

end
